theory Spec2Isabelle
  imports Main
begin

section \<open>Strings\<close>

text \<open>
  The front end works on JavaScript strings. They are modelled as HOL strings; the
  model is exact on ASCII text, which is what the CSV headers, the state table, the
  digits and the punctuation of the validators are made of. A character outside ASCII
  is treated as an opaque symbol: it is no white space, no digit, no word character and
  has no other letter case. JavaScript itself also trims the no-break space and the
  other Unicode spaces and maps the letter case of non-ASCII letters; where that decides
  a property, the state lookup, the functions are modelled a second time over UTF-16
  code units (section \<open>State names over code units\<close>).
\<close>

definition code :: "char \<Rightarrow> nat" where
  "code c = of_char c"

text \<open>White space as \<^verbatim>\<open>trim()\<close> and the regular expression classes \<^verbatim>\<open>\s\<close>, \<^verbatim>\<open>\S\<close> see it:
  tab, line feed, vertical tab, form feed, carriage return, space.\<close>

definition is_space :: "char \<Rightarrow> bool" where
  "is_space c = (code c = 9 \<or> code c = 10 \<or> code c = 11 \<or> code c = 12 \<or> code c = 13 \<or> code c = 32)"

text \<open>\<^verbatim>\<open>\d\<close> is \<^verbatim>\<open>[0-9]\<close>, and \<^verbatim>\<open>\D\<close> its complement.\<close>

definition is_digit :: "char \<Rightarrow> bool" where
  "is_digit c = (48 \<le> code c \<and> code c \<le> 57)"

definition is_upper :: "char \<Rightarrow> bool" where
  "is_upper c = (65 \<le> code c \<and> code c \<le> 90)"

definition is_lower :: "char \<Rightarrow> bool" where
  "is_lower c = (97 \<le> code c \<and> code c \<le> 122)"

text \<open>\<^verbatim>\<open>[\w-]\<close>: letters, digits, underscore and the hyphen.\<close>

definition is_word_or_hyphen :: "char \<Rightarrow> bool" where
  "is_word_or_hyphen c = (is_upper c \<or> is_lower c \<or> is_digit c \<or> code c = 95 \<or> code c = 45)"

definition lower_char :: "char \<Rightarrow> char" where
  "lower_char c = (if is_upper c then ''abcdefghijklmnopqrstuvwxyz'' ! (code c - 65) else c)"

definition upper_char :: "char \<Rightarrow> char" where
  "upper_char c = (if is_lower c then ''ABCDEFGHIJKLMNOPQRSTUVWXYZ'' ! (code c - 97) else c)"

definition toLowerCase :: "string \<Rightarrow> string" where
  "toLowerCase s = map lower_char s"

definition toUpperCase :: "string \<Rightarrow> string" where
  "toUpperCase s = map upper_char s"

definition trim :: "string \<Rightarrow> string" where
  "trim s = rev (dropWhile is_space (rev (dropWhile is_space s)))"

text \<open>\<^verbatim>\<open>function normalize(v) { return (v ?? "").toString().trim().toLowerCase(); }\<close>\<close>

definition normalize :: "string \<Rightarrow> string" where
  "normalize v = toLowerCase (trim v)"

section \<open>Question configuration\<close>

datatype qid = Q1 | Q2 | Q3 | Q4 | Q5

datatype input_type = TextInput | NumberInput | DateInput

record question =
  qident :: qid
  csvColumn :: "string option"
  inputType :: input_type

text \<open>\<^verbatim>\<open>QUESTION_CONFIG\<close>; prompts and placeholders are presentation only and left out.\<close>

definition QUESTION_CONFIG :: "question list" where
  "QUESTION_CONFIG =
    [\<lparr>qident = Q1, csvColumn = Some ''state'', inputType = TextInput\<rparr>,
     \<lparr>qident = Q2, csvColumn = Some ''city'', inputType = TextInput\<rparr>,
     \<lparr>qident = Q3, csvColumn = Some ''bond_limit'', inputType = NumberInput\<rparr>,
     \<lparr>qident = Q4, csvColumn = Some ''name'', inputType = TextInput\<rparr>,
     \<lparr>qident = Q5, csvColumn = None, inputType = DateInput\<rparr>]"

section \<open>State abbreviations\<close>

definition states :: "(string \<times> string) list" where
  "states =
    [(''AL'', ''Alabama''), (''AK'', ''Alaska''), (''AZ'', ''Arizona''), (''AR'', ''Arkansas''),
     (''CA'', ''California''), (''CO'', ''Colorado''), (''CT'', ''Connecticut''),
     (''DE'', ''Delaware''), (''FL'', ''Florida''), (''GA'', ''Georgia''),
     (''HI'', ''Hawaii''), (''ID'', ''Idaho''), (''IL'', ''Illinois''), (''IN'', ''Indiana''),
     (''IA'', ''Iowa''), (''KS'', ''Kansas''), (''KY'', ''Kentucky''), (''LA'', ''Louisiana''),
     (''ME'', ''Maine''), (''MD'', ''Maryland''), (''MA'', ''Massachusetts''),
     (''MI'', ''Michigan''), (''MN'', ''Minnesota''), (''MS'', ''Mississippi''),
     (''MO'', ''Missouri''), (''MT'', ''Montana''), (''NE'', ''Nebraska''), (''NV'', ''Nevada''),
     (''NH'', ''New Hampshire''), (''NJ'', ''New Jersey''), (''NM'', ''New Mexico''),
     (''NY'', ''New York''), (''NC'', ''North Carolina''), (''ND'', ''North Dakota''),
     (''OH'', ''Ohio''), (''OK'', ''Oklahoma''), (''OR'', ''Oregon''), (''PA'', ''Pennsylvania''),
     (''RI'', ''Rhode Island''), (''SC'', ''South Carolina''), (''SD'', ''South Dakota''),
     (''TN'', ''Tennessee''), (''TX'', ''Texas''), (''UT'', ''Utah''), (''VT'', ''Vermont''),
     (''VA'', ''Virginia''), (''WA'', ''Washington''), (''WV'', ''West Virginia''),
     (''WI'', ''Wisconsin''), (''WY'', ''Wyoming'')]"

text \<open>
  \<^verbatim>\<open>const key = input.trim().toUpperCase(); return states[key] || input.trim();\<close>
  Every name in the table is a non-empty string, so \<^verbatim>\<open>||\<close> falls through exactly
  when the key is absent.
\<close>

definition stateFromInput :: "string \<Rightarrow> string" where
  "stateFromInput input =
     (case map_of states (toUpperCase (trim input)) of
        Some full \<Rightarrow> full
      | None \<Rightarrow> trim input)"

section \<open>Interpreting the bond limit\<close>

text \<open>\<^verbatim>\<open>String(raw).replace(/[^0-9.-]/g, "")\<close>\<close>

definition strip_non_numeric :: "string \<Rightarrow> string" where
  "strip_non_numeric s = filter (\<lambda>c. is_digit c \<or> c = CHR ''.'' \<or> c = CHR ''-'') s"

definition digit_char :: "nat \<Rightarrow> char" where
  "digit_char d = ''0123456789'' ! d"

fun dec :: "nat \<Rightarrow> string" where
  "dec n = (if n < 10 then [digit_char n] else dec (n div 10) @ [digit_char (n mod 10)])"

declare dec.simps [simp del]

definition digits_val :: "string \<Rightarrow> nat" where
  "digits_val s = foldl (\<lambda>a c. 10 * a + (code c - 48)) 0 s"

text \<open>
  What \<^verbatim>\<open>Number(t)\<close> is for a string \<open>t\<close> over the alphabet \<^verbatim>\<open>[0-9.-]\<close>. Over this
  alphabet the numeric-literal grammar leaves an optional minus sign followed by
  digits, digits with a fraction, or a fraction alone; the empty string is 0 and
  everything else is NaN. A value whose magnitude is an integer below \<open>2^53\<close> is held
  exactly by a double; the remaining valid literals need rounding and are \<open>Inexact\<close>.
\<close>

datatype jsnum = NaN | Zero | SafeInt bool nat | Inexact

definition split_dot :: "string \<Rightarrow> string \<times> string" where
  "split_dot u =
     (takeWhile (\<lambda>c. c \<noteq> CHR ''.'') u,
      (case dropWhile (\<lambda>c. c \<noteq> CHR ''.'') u of [] \<Rightarrow> [] | _ # f \<Rightarrow> f))"

definition Number :: "string \<Rightarrow> jsnum" where
  "Number t =
     (if t = [] then Zero
      else
        let neg = (hd t = CHR ''-'');
            u = (if neg then tl t else t);
            i = fst (split_dot u);
            f = snd (split_dot u)
        in if \<not> (list_all is_digit i \<and> list_all is_digit f \<and> (i \<noteq> [] \<or> f \<noteq> [])) then NaN
           else if list_all (\<lambda>c. c = CHR ''0'') (i @ f) then Zero
           else if list_all (\<lambda>c. c = CHR ''0'') f \<and> digits_val i < 2 ^ 53 then SafeInt neg (digits_val i)
           else Inexact)"

text \<open>
  \<^verbatim>\<open>if (qid === "q1") return stateFromInput(raw);
  if (qid === "q3") return String(Number(String(raw).replace(/[^0-9.-]/g, "")) || raw);
  return raw;\<close>
  \<^verbatim>\<open>||\<close> takes \<open>raw\<close> when the number is 0 or NaN. A safe integer prints as its decimal
  digits. For an \<open>Inexact\<close> literal the parameter \<open>fp\<close> stands for the double
  arithmetic of the engine: \<open>fp t\<close> is \<open>Some\<close> of the printed double that \<open>t\<close> rounds
  to, or \<open>None\<close> when it rounds to zero.
\<close>

definition interpretAnswer :: "(string \<Rightarrow> string option) \<Rightarrow> qid \<Rightarrow> string \<Rightarrow> string" where
  "interpretAnswer fp q raw =
     (if q = Q1 then stateFromInput raw
      else if q = Q3 then
        (case Number (strip_non_numeric raw) of
           SafeInt neg n \<Rightarrow> (if neg then ''-'' else '''') @ dec n
         | Inexact \<Rightarrow> (case fp (strip_non_numeric raw) of Some s \<Rightarrow> s | None \<Rightarrow> raw)
         | _ \<Rightarrow> raw)
      else raw)"

section \<open>Exact matching\<close>

type_synonym row = "string \<rightharpoonup> string"
type_synonym answers = "qid \<rightharpoonup> string"

text \<open>
  \<^verbatim>\<open>if (!q.csvColumn) return true;
  const raw = row[q.csvColumn];
  if (raw === undefined) return false;
  return normalize(String(raw)) === normalize(interpretAnswer(q.id, answer));\<close>
\<close>

definition matches :: "(string \<Rightarrow> string option) \<Rightarrow> row \<Rightarrow> question \<Rightarrow> string \<Rightarrow> bool" where
  "matches fp r q answer =
     (case csvColumn q of
        None \<Rightarrow> True
      | Some col \<Rightarrow>
          (if col = [] then True
           else case r col of
                  None \<Rightarrow> False
                | Some raw \<Rightarrow> normalize raw = normalize (interpretAnswer fp (qident q) answer)))"

text \<open>\<^verbatim>\<open>answers[q.id] || ""\<close>\<close>

definition answer_of :: "answers \<Rightarrow> qid \<Rightarrow> string" where
  "answer_of ans q = (case ans q of None \<Rightarrow> [] | Some a \<Rightarrow> a)"

definition strictMatch :: "(string \<Rightarrow> string option) \<Rightarrow> row list \<Rightarrow> answers \<Rightarrow> row list" where
  "strictMatch fp rows ans =
     (let qs = filter (\<lambda>q. csvColumn q \<noteq> None \<and> csvColumn q \<noteq> Some []) QUESTION_CONFIG
      in filter (\<lambda>r. list_all (\<lambda>q. matches fp r q (answer_of ans (qident q))) qs) rows)"

text \<open>\<^verbatim>\<open>const primary = exactMatches[0] || null;\<close> with
  \<^verbatim>\<open>exactMatches = csv ? strictMatch(csv.rows, answers) : []\<close>\<close>

definition exactMatches :: "(string \<Rightarrow> string option) \<Rightarrow> row list option \<Rightarrow> answers \<Rightarrow> row list" where
  "exactMatches fp csv ans = (case csv of None \<Rightarrow> [] | Some rows \<Rightarrow> strictMatch fp rows ans)"

definition primary :: "(string \<Rightarrow> string option) \<Rightarrow> row list option \<Rightarrow> answers \<Rightarrow> row option" where
  "primary fp csv ans = (case exactMatches fp csv ans of [] \<Rightarrow> None | r # _ \<Rightarrow> Some r)"


section \<open>The effective date\<close>

text \<open>
  A calendar date as the \<^verbatim>\<open>Date\<close> getters return it: full year, month 1 to 12
  (\<^verbatim>\<open>getMonth() + 1\<close>) and day of the month. Day numbers count from 1970-01-01 as in
  the language standard, and a time value is in milliseconds.
\<close>

type_synonym civil = "nat \<times> nat \<times> nat"

definition InLeapYear :: "nat \<Rightarrow> bool" where
  "InLeapYear y = ((y mod 4 = 0 \<and> y mod 100 \<noteq> 0) \<or> y mod 400 = 0)"

definition DaysInMonth :: "nat \<Rightarrow> nat \<Rightarrow> nat" where
  "DaysInMonth y m =
     (if m = 2 then (if InLeapYear y then 29 else 28)
      else if m = 4 \<or> m = 6 \<or> m = 9 \<or> m = 11 then 30 else 31)"

definition valid_civil :: "civil \<Rightarrow> bool" where
  "valid_civil c = (case c of (y, m, d) \<Rightarrow> 1 \<le> m \<and> m \<le> 12 \<and> 1 \<le> d \<and> d \<le> DaysInMonth y m)"

definition DayFromYear :: "int \<Rightarrow> int" where
  "DayFromYear y = 365 * (y - 1970) + (y - 1969) div 4 - (y - 1901) div 100 + (y - 1601) div 400"

definition month_start :: "nat \<Rightarrow> int" where
  "month_start m = [0, 31, 59, 90, 120, 151, 181, 212, 243, 273, 304, 334] ! (m - 1)"

definition MakeDay :: "civil \<Rightarrow> int" where
  "MakeDay c =
     (case c of (y, m, d) \<Rightarrow>
        DayFromYear (int y) + month_start m + (if InLeapYear y \<and> 2 < m then 1 else 0) + int d - 1)"

definition msPerDay :: int where
  "msPerDay = 86400000"

text \<open>\<^verbatim>\<open>String(n).padStart(2, "0")\<close>\<close>

definition pad2 :: "nat \<Rightarrow> string" where
  "pad2 n = (if n < 10 then ''0'' @ dec n else dec n)"

text \<open>\<^verbatim>\<open>`${y}-${m}-${day}`\<close>\<close>

definition ymd :: "civil \<Rightarrow> string" where
  "ymd c = (case c of (y, m, d) \<Rightarrow> dec y @ ''-'' @ pad2 m @ ''-'' @ pad2 d)"

text \<open>\<open>todayYMD\<close> formats the local calendar date of the clock, here the argument \<open>now\<close>.\<close>

definition todayYMD :: "civil \<Rightarrow> string" where
  "todayYMD now = ymd now"

text \<open>
  \<^verbatim>\<open>d.setFullYear(d.getFullYear() + 1)\<close> keeps month and day; 29 February has no
  counterpart in the following year and the date rolls over to 1 March.
\<close>

definition plusOneYear :: "civil \<Rightarrow> civil" where
  "plusOneYear c =
     (case c of (y, m, d) \<Rightarrow>
        if m = 2 \<and> d = 29 \<and> \<not> InLeapYear (y + 1) then (y + 1, 3, 1) else (y + 1, m, d))"

definition plusOneYearYMD :: "civil \<Rightarrow> string" where
  "plusOneYearYMD now = ymd (plusOneYear now)"

text \<open>
  The date-only form \<^verbatim>\<open>YYYY-MM-DD\<close> of the standard's date-time string format, which
  is also what a date input delivers.
\<close>

definition parseYMD :: "string \<Rightarrow> civil option" where
  "parseYMD s =
     (if length s = 10 \<and> s ! 4 = CHR ''-'' \<and> s ! 7 = CHR ''-'' \<and>
         list_all is_digit (take 4 s) \<and> list_all is_digit (take 2 (drop 5 s)) \<and>
         list_all is_digit (drop 8 s)
      then
        let c = (digits_val (take 4 s), digits_val (take 2 (drop 5 s)), digits_val (drop 8 s))
        in if valid_civil c then Some c else None
      else None)"

text \<open>
  The time value of \<^verbatim>\<open>new Date(s)\<close>, \<open>None\<close> for an invalid date. A valid
  \<^verbatim>\<open>YYYY-MM-DD\<close> is midnight UTC of that day. What any other string parses to is left
  to the engine, the parameter \<open>ext\<close>.
\<close>

definition jsDate :: "(string \<Rightarrow> int option) \<Rightarrow> string \<Rightarrow> int option" where
  "jsDate ext s = (case parseYMD s of Some c \<Rightarrow> Some (MakeDay c * msPerDay) | None \<Rightarrow> ext s)"

text \<open>A relational comparison with an invalid date (NaN) is false.\<close>

definition date_less :: "int option \<Rightarrow> int option \<Rightarrow> bool" where
  "date_less a b = (case (a, b) of (Some x, Some y) \<Rightarrow> x < y | _ \<Rightarrow> False)"

text \<open>
  \<^verbatim>\<open>const min = new Date(minDate); const max = new Date(maxDate); const d = new Date(val);
  if (!(d instanceof Date) || isNaN(d.getTime())) return "Please choose a valid date.";
  if (d < min) return "Effective date cannot be in the past. ...";
  if (d > max) return "Effective date must be within the next year.";
  return "";\<close>
\<close>

definition validateQ5 :: "(string \<Rightarrow> int option) \<Rightarrow> civil \<Rightarrow> string \<Rightarrow> string" where
  "validateQ5 ext now val =
     (let min = jsDate ext (todayYMD now);
          max = jsDate ext (plusOneYearYMD now);
          d = jsDate ext val
      in if d = None then ''Please choose a valid date.''
         else if date_less d min
           then ''Effective date cannot be in the past. Please select today or a future date.''
         else if date_less max d then ''Effective date must be within the next year.''
         else [])"

text \<open>An engine that parses nothing beyond \<^verbatim>\<open>YYYY-MM-DD\<close>, for the sample data.\<close>

definition no_ext :: "string \<Rightarrow> int option" where
  "no_ext s = None"

section \<open>Contact validation\<close>

text \<open>
  \<^verbatim>\<open>/^\S+@\S+\.[\w-]{2,}$/.test(String(s).trim())\<close>. The dot of the pattern is no
  character of \<^verbatim>\<open>[\w-]\<close>, so the last group is the whole run of such characters at
  the end of the string and the dot stands right before it. What is left in front has
  to be free of white space and to hold an \<open>@\<close> that is neither its first nor its last
  character.
\<close>

definition email_pattern :: "string \<Rightarrow> bool" where
  "email_pattern t =
     (let tld = rev (takeWhile is_word_or_hyphen (rev t));
          front = rev (dropWhile is_word_or_hyphen (rev t))
      in 2 \<le> length tld \<and> front \<noteq> [] \<and> last front = CHR ''.'' \<and>
         list_all (\<lambda>x. \<not> is_space x) (butlast front) \<and>
         CHR ''@'' \<in> set (tl (butlast (butlast front))))"


text \<open>\<^verbatim>\<open>/^\+\d{lo,hi}$/\<close>\<close>

definition plus_digits :: "nat \<Rightarrow> nat \<Rightarrow> string \<Rightarrow> bool" where
  "plus_digits lo hi t =
     (case t of
        [] \<Rightarrow> False
      | c # ds \<Rightarrow> c = CHR ''+'' \<and> list_all is_digit ds \<and> lo \<le> length ds \<and> length ds \<le> hi)"

text \<open>
  \<^verbatim>\<open>const digits = String(s || "").replace(/\D+/g, "");
  if (digits.length === 11 && digits.startsWith("1")) return "+" + digits;
  if (digits.length === 10) return "+1" + digits;
  if (/^\+\d{7,15}$/.test("+" + digits)) return "+" + digits;
  return (s || "").trim();\<close>
\<close>

definition normalizePhone :: "string \<Rightarrow> string" where
  "normalizePhone s =
     (let digits = filter is_digit s in
      if length digits = 11 \<and> take 1 digits = ''1'' then ''+'' @ digits
      else if length digits = 10 then ''+1'' @ digits
      else if plus_digits 7 15 (''+'' @ digits) then ''+'' @ digits
      else trim s)"

text \<open>\<^verbatim>\<open>const n = normalizePhone(s); return /^\+\d{10,15}$/.test(n);\<close>\<close>

definition isValidPhone :: "string \<Rightarrow> bool" where
  "isValidPhone s = plus_digits 10 15 (normalizePhone s)"

section \<open>The wizard\<close>

datatype phase = Qa | Summary | Purchase | Consent | Delivery | Done

datatype field = CompanyName | ContactName | CompanyAddress | ContactPhone | ContactEmail

datatype delivery = ByText | ByEmail

text \<open>\<^verbatim>\<open>PURCHASE_FIELDS\<close>: the field and its prompt; input types and hints are presentation.\<close>

definition PURCHASE_FIELDS :: "(field \<times> string) list" where
  "PURCHASE_FIELDS =
    [(CompanyName, ''Company Name''), (ContactName, ''Contact Name''),
     (CompanyAddress, ''Company Address''), (ContactPhone, ''Contact Cell Phone Number''),
     (ContactEmail, ''Contact Email Address'')]"

text \<open>The state hooks of the component.\<close>

record wizard =
  csv :: "row list option"
  phase :: phase
  step :: nat
  answers :: answers
  input :: string
  qError :: string
  purchase :: "field \<rightharpoonup> string"
  pStep :: nat
  pError :: string
  deliveryChoice :: "delivery option"
  deliveryValue :: string
  deliveryError :: string





















text \<open>An answer is recorded: some question has a new value.\<close>

definition records_answer :: "wizard \<Rightarrow> wizard \<Rightarrow> bool" where
  "records_answer w w' = (\<exists>q v. answers w' q = Some v \<and> answers w q \<noteq> Some v)"


section \<open>Remote lookup\<close>

text \<open>
  The later versions of the component do not filter an uploaded file but ask a remote
  service when the summary phase is entered: an HTTP endpoint (\<open>findExactBondViaApi\<close>)
  or a hosted table (\<open>findExactBond\<close>, \<open>findExactBondClient\<close>). The service is outside
  the program; what it answers to a query is data of the model.
\<close>

record bond_row =
  bstate :: string
  bcity :: string
  blimit :: string
  bname :: string
  bpremium :: "string option"

record bond_query =
  qstate :: string
  qcity :: string
  qlimit :: jsnum
  qname :: string

text \<open>The result of \<^verbatim>\<open>res.json()\<close>, read as \<^verbatim>\<open>json?.match ?? null\<close>, or a parse error.\<close>

datatype json_body = JsonError | JsonMatch "bond_row option"

text \<open>
  A response: \<^verbatim>\<open>res.ok\<close>, what \<^verbatim>\<open>await res.text()\<close> gives (\<open>None\<close> when the read of
  the body is rejected) and what \<^verbatim>\<open>await res.json()\<close> gives.
\<close>

record http_response =
  ok :: bool
  body_text :: "string option"
  body_json :: json_body

datatype fetch_outcome = FetchRejected | FetchResponse http_response

text \<open>An exception that leaves the function.\<close>

datatype thrown = NetworkFailure | BodyUnreadable | BadJson

text \<open>
  \<^verbatim>\<open>const res = await fetch("/api/query-bond", { method: "POST", ... });
  if (!res.ok) { console.error("API error", await res.text()); return null; }
  const json = await res.json();
  return json?.match ?? null;\<close>
\<close>

definition findExactBondViaApi :: "(bond_query \<Rightarrow> fetch_outcome) \<Rightarrow> bond_query \<Rightarrow> thrown + bond_row option" where
  "findExactBondViaApi server params =
     (case server params of
        FetchRejected \<Rightarrow> Inl NetworkFailure
      | FetchResponse res \<Rightarrow>
          if \<not> ok res then
            (case body_text res of None \<Rightarrow> Inl BodyUnreadable | Some logged \<Rightarrow> Inr None)
          else case body_json res of JsonError \<Rightarrow> Inl BadJson | JsonMatch m \<Rightarrow> Inr m)"

text \<open>What the table client resolves to: \<^verbatim>\<open>{ data, error }\<close>.\<close>

record query_result =
  rdata :: "bond_row list option"
  rerror :: "string option"

text \<open>
  \<^verbatim>\<open>const { data, error } = await supabase.from("bonds").select(...).eq(...).limit(1);
  if (error) { console.error(...); return null; }
  return (data && data[0]) || null;\<close>
\<close>

definition first_row :: "bond_row list option \<Rightarrow> bond_row option" where
  "first_row d = (case d of Some (r # _) \<Rightarrow> Some r | _ \<Rightarrow> None)"

definition findExactBond :: "(bond_query \<Rightarrow> query_result) \<Rightarrow> bond_query \<Rightarrow> bond_row option" where
  "findExactBond db params =
     (let res = db params in if rerror res \<noteq> None then None else first_row (rdata res))"

text \<open>
  \<^verbatim>\<open>try { const { data, error } = await supabase...;
    if (error) { return { match: null, error: error.message }; }
    return { match: (data && data.length > 0) ? data[0] : null };
  } catch (e) { return { match: null, error: "client-exception" }; }\<close>
\<close>

datatype client_outcome = ClientThrows | ClientResult query_result

record lookup_reply =
  match :: "bond_row option"
  error_message :: "string option"

definition findExactBondClient :: "(bond_query \<Rightarrow> client_outcome) \<Rightarrow> bond_query \<Rightarrow> lookup_reply" where
  "findExactBondClient db params =
     (case db params of
        ClientThrows \<Rightarrow> \<lparr>match = None, error_message = Some ''client-exception''\<rparr>
      | ClientResult res \<Rightarrow>
          if rerror res \<noteq> None then \<lparr>match = None, error_message = rerror res\<rparr>
          else \<lparr>match = first_row (rdata res), error_message = None\<rparr>)"

text \<open>The state hooks of the remote versions that the summary uses.\<close>

record lookup_state =
  lphase :: phase
  lanswers :: answers
  lprimary :: "bond_row option"
  loadingMatch :: bool
  queryError :: "string option"

text \<open>
  \<^verbatim>\<open>const t = (input || "").trim();
  if (/^[A-Za-z]{2}$/.test(t)) { const full = STATE_ABBR_TO_NAME[t.toUpperCase()]; return full ? full : t; }
  return t;\<close>
\<close>

definition stateFromInput2 :: "string \<Rightarrow> string" where
  "stateFromInput2 inp =
     (let t = trim inp in
      if length t = 2 \<and> list_all (\<lambda>c. is_upper c \<or> is_lower c) t
      then (case map_of states (toUpperCase t) of Some full \<Rightarrow> full | None \<Rightarrow> t)
      else t)"

text \<open>
  \<^verbatim>\<open>const n = Number(String(val ?? "").replace(/[^0-9.-]/g, "")); return Number.isFinite(n) ? n : null;\<close>
  Whether an \<open>Inexact\<close> literal rounds to a finite double is the engine's matter, the
  parameter \<open>fin\<close>.
\<close>

definition numeric :: "(string \<Rightarrow> bool) \<Rightarrow> string \<Rightarrow> jsnum option" where
  "numeric fin val =
     (case Number (strip_non_numeric val) of
        NaN \<Rightarrow> None
      | Inexact \<Rightarrow> (if fin (strip_non_numeric val) then Some Inexact else None)
      | n \<Rightarrow> Some n)"

text \<open>
  \<^verbatim>\<open>const state = stateFromInput(answers.q1 || ""); const city = (answers.q2 || "").trim();
  const bondLimitNum = numeric(answers.q3); const partyName = (answers.q4 || "").trim();
  if (!state || !city || !partyName || bondLimitNum === null) { setPrimary(null); return; }\<close>
\<close>

definition summary_query :: "(string \<Rightarrow> bool) \<Rightarrow> answers \<Rightarrow> bond_query option" where
  "summary_query fin a =
     (let state = stateFromInput2 (answer_of a Q1);
          city = trim (answer_of a Q2);
          bondLimitNum = numeric fin (answer_of a Q3);
          partyName = trim (answer_of a Q4)
      in case bondLimitNum of
           None \<Rightarrow> None
         | Some n \<Rightarrow>
             if state = [] \<or> city = [] \<or> partyName = [] then None
             else Some \<lparr>qstate = state, qcity = city, qlimit = n, qname = partyName\<rparr>)"

text \<open>
  The effect that runs when the summary phase is entered. Each \<^verbatim>\<open>await\<close> of a lookup
  takes the next answer of the service from the list \<open>env\<close>; what is left of the list is
  returned with the new state. With the endpoint and with \<open>findExactBond\<close>:
  \<^verbatim>\<open>if (phase !== "summary") return;
  ... setLoadingMatch(true);
  const row = await findExactBondViaApi({ state, city, bond_limit: bondLimitNum, name: partyName });
  setPrimary(row); setLoadingMatch(false);\<close>
  An exception of the lookup ends the effect after \<^verbatim>\<open>setLoadingMatch(true)\<close>.
\<close>

definition run_summary ::
  "('s \<Rightarrow> bond_query \<Rightarrow> thrown + bond_row option) \<Rightarrow> (string \<Rightarrow> bool) \<Rightarrow>
   lookup_state \<Rightarrow> 's list \<Rightarrow> lookup_state \<times> 's list" where
  "run_summary lookup fin st env =
     (if lphase st \<noteq> Summary then (st, env)
      else case summary_query fin (lanswers st) of
             None \<Rightarrow> (st\<lparr>lprimary := None\<rparr>, env)
           | Some params \<Rightarrow>
               (case env of
                  [] \<Rightarrow> (st\<lparr>loadingMatch := True\<rparr>, [])
                | server # rest \<Rightarrow>
                    (case lookup server params of
                       Inl e \<Rightarrow> (st\<lparr>loadingMatch := True\<rparr>, rest)
                     | Inr row \<Rightarrow> (st\<lparr>lprimary := row, loadingMatch := False\<rparr>, rest))))"

definition run_api ::
  "(string \<Rightarrow> bool) \<Rightarrow> lookup_state \<Rightarrow> (bond_query \<Rightarrow> fetch_outcome) list \<Rightarrow>
   lookup_state \<times> (bond_query \<Rightarrow> fetch_outcome) list" where
  "run_api = run_summary findExactBondViaApi"

definition run_table ::
  "(string \<Rightarrow> bool) \<Rightarrow> lookup_state \<Rightarrow> (bond_query \<Rightarrow> query_result) list \<Rightarrow>
   lookup_state \<times> (bond_query \<Rightarrow> query_result) list" where
  "run_table = run_summary (\<lambda>db params. Inr (findExactBond db params))"

text \<open>
  With \<open>findExactBondClient\<close>:
  \<^verbatim>\<open>setLoadingMatch(true); setQueryError(null);
  try { const resp = await findExactBondClient({...});
    if (resp.error) setQueryError(resp.error);
    setPrimary(resp.match || null);
  } catch (e) { setPrimary(null); setQueryError("Unexpected client error"); }
  finally { setLoadingMatch(false); }\<close>
  The lookup catches its own exceptions, so the \<^verbatim>\<open>catch\<close> branch is never taken. An
  empty error message is falsy and sets no note.
\<close>

definition run_client ::
  "(string \<Rightarrow> bool) \<Rightarrow> lookup_state \<Rightarrow> (bond_query \<Rightarrow> client_outcome) list \<Rightarrow>
   lookup_state \<times> (bond_query \<Rightarrow> client_outcome) list" where
  "run_client fin st env =
     (if lphase st \<noteq> Summary then (st, env)
      else case summary_query fin (lanswers st) of
             None \<Rightarrow> (st\<lparr>lprimary := None\<rparr>, env)
           | Some params \<Rightarrow>
               (case env of
                  [] \<Rightarrow> (st\<lparr>loadingMatch := True, queryError := None\<rparr>, [])
                | db # rest \<Rightarrow>
                    (let resp = findExactBondClient db params;
                         note = (case error_message resp of
                                   None \<Rightarrow> None
                                 | Some m \<Rightarrow> if m = [] then None else Some m)
                     in (st\<lparr>queryError := note, lprimary := match resp, loadingMatch := False\<rparr>, rest))))"

text \<open>
  What the summary card shows:
  \<^verbatim>\<open>loadingMatch ? <Searching/> : primary ? <BondSummary/> : <NoMatch/>\<close>, the last one
  with a note when \<open>queryError\<close> is set.
\<close>

datatype summary_card = Searching | BondSummary bond_row | NoMatchInquiry "string option"

definition summary_card :: "lookup_state \<Rightarrow> summary_card" where
  "summary_card st =
     (if loadingMatch st then Searching
      else case lprimary st of Some r \<Rightarrow> BondSummary r | None \<Rightarrow> NoMatchInquiry (queryError st))"

definition is_no_match :: "summary_card \<Rightarrow> bool" where
  "is_no_match c = (case c of NoMatchInquiry _ \<Rightarrow> True | _ \<Rightarrow> False)"

section \<open>State names over code units\<close>

text \<open>
  A JavaScript string is a sequence of UTF-16 code units, and \<^verbatim>\<open>trim()\<close> and
  \<^verbatim>\<open>toUpperCase()\<close> work on all of them. For the state lookup this matters, so here it
  is once more with code units as numbers.
\<close>

type_synonym ustring = "nat list"

definition units :: "string \<Rightarrow> ustring" where
  "units s = map code s"

text \<open>
  White space and line terminators of the language: tab, line feed, vertical tab, form
  feed, carriage return, space, no-break space, U+1680, U+2000 to U+200A, U+2028,
  U+2029, U+202F, U+205F, U+3000 and U+FEFF.
\<close>

definition is_space_u :: "nat \<Rightarrow> bool" where
  "is_space_u c =
     (c = 9 \<or> c = 10 \<or> c = 11 \<or> c = 12 \<or> c = 13 \<or> c = 32 \<or> c = 160 \<or> c = 5760 \<or>
      (8192 \<le> c \<and> c \<le> 8202) \<or> c = 8232 \<or> c = 8233 \<or> c = 8239 \<or> c = 8287 \<or>
      c = 12288 \<or> c = 65279)"

definition trim_u :: "ustring \<Rightarrow> ustring" where
  "trim_u s = rev (dropWhile is_space_u (rev (dropWhile is_space_u s)))"

text \<open>
  \<^verbatim>\<open>toUpperCase()\<close> maps code point by code point, one code point possibly to several.
  The keys of the table are made of the letters A to Z, so only the code units whose
  upper-case form consists of such letters can take part in a key: the ASCII letters,
  the sharp s (U+00DF, to SS), the dotless i (U+0131, to I), the long s (U+017F, to S)
  and the ligatures U+FB00 to U+FB06 (to FF, FI, FL, FFI, FFL, ST, ST). \<open>upper_letters\<close>
  gives that form, and \<open>None\<close> for every other code unit: its upper-case form holds
  something else than a letter A to Z.
\<close>

definition upper_letters :: "nat \<Rightarrow> string option" where
  "upper_letters c =
     (if 97 \<le> c \<and> c \<le> 122 then Some [''ABCDEFGHIJKLMNOPQRSTUVWXYZ'' ! (c - 97)]
      else if 65 \<le> c \<and> c \<le> 90 then Some [''ABCDEFGHIJKLMNOPQRSTUVWXYZ'' ! (c - 65)]
      else if c = 223 then Some ''SS''
      else if c = 305 then Some ''I''
      else if c = 383 then Some ''S''
      else if c = 64256 then Some ''FF''
      else if c = 64257 then Some ''FI''
      else if c = 64258 then Some ''FL''
      else if c = 64259 then Some ''FFI''
      else if c = 64260 then Some ''FFL''
      else if c = 64261 then Some ''ST''
      else if c = 64262 then Some ''ST''
      else None)"

text \<open>
  The upper-cased string when it is made of letters A to Z only, the one case in which
  \<^verbatim>\<open>states[key]\<close> can be defined: the keys of the table are such strings, and the
  property names an object inherits all hold a lower-case letter, which no upper-cased
  string does.
\<close>

fun upper_key :: "ustring \<Rightarrow> string option" where
  "upper_key [] = Some []"
| "upper_key (c # cs) =
     (case upper_letters c of
        None \<Rightarrow> None
      | Some u \<Rightarrow> (case upper_key cs of None \<Rightarrow> None | Some k \<Rightarrow> Some (u @ k)))"

text \<open>
  \<^verbatim>\<open>const key = input.trim().toUpperCase(); return states[key] || input.trim();\<close>
  (the first version of the component).
\<close>

definition stateFromInput_u :: "ustring \<Rightarrow> ustring" where
  "stateFromInput_u inp =
     (case upper_key (trim_u inp) of
        None \<Rightarrow> trim_u inp
      | Some key \<Rightarrow> (case map_of states key of Some full \<Rightarrow> units full | None \<Rightarrow> trim_u inp))"

text \<open>
  \<^verbatim>\<open>const t = (input || "").trim();
  if (/^[A-Za-z]{2}$/.test(t)) { const full = STATE_ABBR_TO_NAME[t.toUpperCase()]; return full ? full : t; }
  return t;\<close>
  (the later versions).
\<close>

definition is_ascii_letter :: "nat \<Rightarrow> bool" where
  "is_ascii_letter c = ((65 \<le> c \<and> c \<le> 90) \<or> (97 \<le> c \<and> c \<le> 122))"

definition stateFromInput2_u :: "ustring \<Rightarrow> ustring" where
  "stateFromInput2_u inp =
     (let t = trim_u inp in
      if length t = 2 \<and> list_all is_ascii_letter t
      then (case upper_key t of
              None \<Rightarrow> t
            | Some key \<Rightarrow> (case map_of states key of Some full \<Rightarrow> units full | None \<Rightarrow> t))
      else t)"

section \<open>The matcher, spelled out\<close>

text \<open>A row's cell in column \<open>col\<close> equals \<open>a\<close> after trimming and lower-casing both sides.\<close>

definition cell_is :: "row \<Rightarrow> string \<Rightarrow> string \<Rightarrow> bool" where
  "cell_is r col a = (case r col of None \<Rightarrow> False | Some raw \<Rightarrow> normalize raw = normalize a)"

text \<open>All four mapped questions match on a row.\<close>

definition all_match :: "(string \<Rightarrow> string option) \<Rightarrow> answers \<Rightarrow> row \<Rightarrow> bool" where
  "all_match fp ans r =
     (cell_is r ''state'' (stateFromInput (answer_of ans Q1)) \<and>
      cell_is r ''city'' (answer_of ans Q2) \<and>
      cell_is r ''bond_limit'' (interpretAnswer fp Q3 (answer_of ans Q3)) \<and>
      cell_is r ''name'' (answer_of ans Q4))"

section \<open>Sample data\<close>

definition chicago_row :: row where
  "chicago_row = [''state'' \<mapsto> ''Illinois'', ''city'' \<mapsto> '' Chicago'', ''bond_limit'' \<mapsto> ''50000'',
                  ''name'' \<mapsto> ''City of Chicago'', ''premium'' \<mapsto> ''100'']"

definition chicago_row2 :: row where
  "chicago_row2 = [''state'' \<mapsto> ''ILLINOIS'', ''city'' \<mapsto> ''Chicago'', ''bond_limit'' \<mapsto> ''50000'',
                  ''name'' \<mapsto> ''City of Chicago'', ''premium'' \<mapsto> ''250'']"

definition springfield_row :: row where
  "springfield_row = [''state'' \<mapsto> ''Illinois'', ''city'' \<mapsto> ''Springfield'', ''bond_limit'' \<mapsto> ''50,000'',
                  ''name'' \<mapsto> ''City of Springfield'', ''premium'' \<mapsto> ''80'']"

definition blank_city_row :: row where
  "blank_city_row = [''state'' \<mapsto> ''Illinois'', ''city'' \<mapsto> ''  '', ''bond_limit'' \<mapsto> ''50000'',
                  ''name'' \<mapsto> ''City of Chicago'']"

definition chicago_answers :: answers where
  "chicago_answers = [Q1 \<mapsto> ''il'', Q2 \<mapsto> ''chicago'', Q3 \<mapsto> ''$50,000'', Q4 \<mapsto> ''city of chicago'',
                      Q5 \<mapsto> ''2024-06-01'']"

text \<open>A double printer that is never consulted on the sample data.\<close>

definition no_fp :: "string \<Rightarrow> string option" where
  "no_fp t = None"

section \<open>A sample session\<close>




definition demo_summary :: lookup_state where
  "demo_summary =
     \<lparr>lphase = Summary, lanswers = chicago_answers, lprimary = None, loadingMatch = False,
      queryError = None\<rparr>"

definition server_down :: "bond_query \<Rightarrow> fetch_outcome" where
  "server_down q =
     FetchResponse \<lparr>ok = False, body_text = Some ''Internal Server Error'', body_json = JsonError\<rparr>"

text \<open>A server that answers with an error status and drops the connection before the body.\<close>

definition server_cut :: "bond_query \<Rightarrow> fetch_outcome" where
  "server_cut q = FetchResponse \<lparr>ok = False, body_text = None, body_json = JsonError\<rparr>"

definition client_cut :: "bond_query \<Rightarrow> client_outcome" where
  "client_cut q = ClientThrows"

text \<open>Rows with a bond limit only, and a double printer that knows one fraction.\<close>

definition limit_row :: "string \<Rightarrow> row" where
  "limit_row cell = [''bond_limit'' \<mapsto> cell]"

definition sample_fp :: "string \<Rightarrow> string option" where
  "sample_fp t = (if t = ''1.50'' then Some ''1.5'' else None)"

definition table_denied :: "bond_query \<Rightarrow> query_result" where
  "table_denied q = \<lparr>rdata = None, rerror = Some ''permission denied for table bonds''\<rparr>"

definition all_finite :: "string \<Rightarrow> bool" where
  "all_finite t = True"


section \<open>Evaluation and basic facts\<close>

lemmas eval_defs = all_match_def cell_is_def normalize_def trim_def toLowerCase_def toUpperCase_def
  lower_char_def upper_char_def is_upper_def is_lower_def is_space_def is_digit_def code_def
  answer_of_def stateFromInput_def states_def interpretAnswer_def strip_non_numeric_def Number_def
  split_dot_def digits_val_def dec.simps digit_char_def

lemma matches_mapped:
  "csvColumn q = Some col \<Longrightarrow> col \<noteq> [] \<Longrightarrow>
   matches fp r q a = cell_is r col (interpretAnswer fp (qident q) a)"
  by (simp add: matches_def cell_is_def split: option.splits)

lemma interpretAnswer_simps:
  "interpretAnswer fp Q1 a = stateFromInput a"
  "interpretAnswer fp Q2 a = a"
  "interpretAnswer fp Q4 a = a"
  "interpretAnswer fp Q5 a = a"
  by (simp_all add: interpretAnswer_def)

lemma mapped_questions:
  "filter (\<lambda>q. csvColumn q \<noteq> None \<and> csvColumn q \<noteq> Some []) QUESTION_CONFIG = take 4 QUESTION_CONFIG"
  by (simp add: QUESTION_CONFIG_def)

lemma all_mapped_match:
  "list_all (\<lambda>q. matches fp r q (answer_of ans (qident q))) (take 4 QUESTION_CONFIG) = all_match fp ans r"
  by (simp add: QUESTION_CONFIG_def matches_mapped interpretAnswer_simps all_match_def)

lemma strictMatch_filter: "strictMatch fp rows ans = filter (all_match fp ans) rows"
  unfolding strictMatch_def mapped_questions Let_def all_mapped_match ..

lemma primary_find: "primary fp (Some rows) ans = find (all_match fp ans) rows"
  unfolding primary_def exactMatches_def
  by (simp add: strictMatch_filter) (induction rows; simp)

lemma trim_Nil [simp]: "trim [] = []"
  by (simp add: trim_def)

lemma dropWhile_Nil_iff: "dropWhile P xs = [] \<longleftrightarrow> list_all P xs"
  by (induction xs) auto

lemma trim_Nil_iff: "trim raw = [] \<longleftrightarrow> list_all is_space raw"
proof
  assume "trim raw = []"
  then have a: "list_all is_space (rev (dropWhile is_space raw))"
    unfolding trim_def by (simp only: rev_is_Nil_conv dropWhile_Nil_iff)
  show "list_all is_space raw"
  proof (rule ccontr)
    assume "\<not> list_all is_space raw"
    then have ne: "dropWhile is_space raw \<noteq> []"
      by (simp only: dropWhile_Nil_iff not_False_eq_True)
    then have "\<not> is_space (hd (dropWhile is_space raw))"
      by (rule hd_dropWhile)
    moreover have "hd (dropWhile is_space raw) \<in> set (dropWhile is_space raw)"
      using ne by simp
    ultimately show False
      using a by (simp add: list_all_iff)
  qed
next
  assume "list_all is_space raw"
  then have h: "dropWhile is_space raw = []"
    by (simp only: dropWhile_Nil_iff)
  show "trim raw = []"
    by (simp only: trim_def h rev.simps dropWhile.simps)
qed

lemma normalize_Nil_iff: "normalize raw = [] \<longleftrightarrow> list_all is_space raw"
  by (simp add: normalize_def toLowerCase_def trim_Nil_iff)

lemma interpretAnswer_Nil: "interpretAnswer fp q [] = []"
  by (simp add: interpretAnswer_def stateFromInput_def toUpperCase_def states_def
      strip_non_numeric_def Number_def)

lemma chicago_match: "all_match no_fp chicago_answers chicago_row"
  by (simp add: chicago_answers_def chicago_row_def eval_defs)

lemma chicago2_match: "all_match no_fp chicago_answers chicago_row2"
  by (simp add: chicago_answers_def chicago_row2_def eval_defs)

lemma springfield_no_match: "\<not> all_match no_fp chicago_answers springfield_row"
  by (simp add: chicago_answers_def springfield_row_def eval_defs)

lemma strictMatch_member:
  assumes "r \<in> set (strictMatch fp rows ans)" "q \<in> set QUESTION_CONFIG" "csvColumn q = Some col"
  shows "cell_is r col (interpretAnswer fp (qident q) (answer_of ans (qident q)))"
proof -
  have "all_match fp ans r"
    using assms(1) by (simp add: strictMatch_filter)
  then show ?thesis
    using assms(2,3) by (auto simp: QUESTION_CONFIG_def all_match_def interpretAnswer_simps)
qed

section \<open>The strict matcher\<close>



text \<open>
  C4. The record the summary shows is the first matching row in the order of the data
  set: \<open>strictMatch\<close> is a filter of the rows, the primary record is the first row that
  matches (no earlier row does), and there is none exactly when the filtered list is
  empty.
\<close>

theorem first_match_wins:
  "strictMatch fp rows ans = filter (all_match fp ans) rows \<and>
   primary fp (Some rows) ans = find (all_match fp ans) rows \<and>
   primary fp None ans = None \<and>
   (primary fp file ans = None \<longleftrightarrow> exactMatches fp file ans = []) \<and>
   (primary fp (Some rows) ans = Some r \<longleftrightarrow>
      (\<exists>i<length rows. rows ! i = r \<and> all_match fp ans r \<and> (\<forall>j<i. \<not> all_match fp ans (rows ! j))))"
proof -
  have "primary fp (Some rows) ans = Some r \<longleftrightarrow>
      (\<exists>i<length rows. rows ! i = r \<and> all_match fp ans r \<and> (\<forall>j<i. \<not> all_match fp ans (rows ! j)))"
    unfolding primary_find find_Some_iff by auto
  moreover have "primary fp file ans = None \<longleftrightarrow> exactMatches fp file ans = []"
    by (simp add: primary_def split: list.splits)
  moreover have "primary fp None ans = None"
    by (simp add: primary_def exactMatches_def)
  ultimately show ?thesis
    using strictMatch_filter primary_find by blast
qed

theorem first_match_wins_witness:
  "map_option (\<lambda>r. r ''premium'')
     (primary no_fp (Some [springfield_row, chicago_row, chicago_row2]) chicago_answers) = Some (Some ''100'') \<and>
   length (strictMatch no_fp [springfield_row, chicago_row, chicago_row2] chicago_answers) = 2"
  using first_match_wins [of no_fp "[springfield_row, chicago_row, chicago_row2]" chicago_answers
          "Some []" chicago_row]
        chicago_match chicago2_match springfield_no_match
  by (simp add: chicago_row_def)

text \<open>
  C10. An empty answer is no wildcard: when the answer to a mapped question is absent or
  the empty string, every row that \<open>strictMatch\<close> keeps has a cell in that column that is
  empty or white space only; and a row without a mapped column is dropped whatever the
  answers are.
\<close>

theorem empty_answer_not_wildcard:
  assumes "q \<in> set QUESTION_CONFIG" "csvColumn q = Some col"
  shows "((ans (qident q) = None \<or> ans (qident q) = Some []) \<longrightarrow>
            (\<forall>r \<in> set (strictMatch fp rows ans). \<exists>raw. r col = Some raw \<and> list_all is_space raw)) \<and>
         (r col = None \<longrightarrow> r \<notin> set (strictMatch fp rows ans))"
proof (intro conjI impI ballI)
  fix r'
  assume e: "ans (qident q) = None \<or> ans (qident q) = Some []"
    and m: "r' \<in> set (strictMatch fp rows ans)"
  from e have "answer_of ans (qident q) = []"
    by (auto simp: answer_of_def)
  with strictMatch_member [OF m assms] have "cell_is r' col []"
    by (simp add: interpretAnswer_Nil)
  then show "\<exists>raw. r' col = Some raw \<and> list_all is_space raw"
    by (auto simp: cell_is_def normalize_Nil_iff [symmetric] normalize_def toLowerCase_def
        split: option.splits)
next
  assume n: "r col = None"
  show "r \<notin> set (strictMatch fp rows ans)"
  proof
    assume "r \<in> set (strictMatch fp rows ans)"
    from strictMatch_member [OF this assms] n show False
      by (simp add: cell_is_def)
  qed
qed

theorem empty_answer_not_wildcard_witness:
  "map (\<lambda>r. r ''city'') (strictMatch no_fp [chicago_row, blank_city_row] (chicago_answers(Q2 := None)))
     = [Some ''  ''] \<and>
   list_all (\<lambda>r. \<exists>raw. r ''city'' = Some raw \<and> list_all is_space raw)
     (strictMatch no_fp [chicago_row, blank_city_row] (chicago_answers(Q2 := None))) \<and>
   Map.empty \<notin> set (strictMatch no_fp [Map.empty] Map.empty)"
proof -
  have q: "\<lparr>qident = Q2, csvColumn = Some ''city'', inputType = TextInput\<rparr> \<in> set QUESTION_CONFIG"
    by (simp add: QUESTION_CONFIG_def)
  have "\<not> all_match no_fp (chicago_answers(Q2 := None)) chicago_row"
    by (simp add: chicago_answers_def chicago_row_def eval_defs)
  moreover have "all_match no_fp (chicago_answers(Q2 := None)) blank_city_row"
    by (simp add: chicago_answers_def blank_city_row_def eval_defs)
  ultimately have "map (\<lambda>r. r ''city'')
      (strictMatch no_fp [chicago_row, blank_city_row] (chicago_answers(Q2 := None))) = [Some ''  '']"
    by (simp add: strictMatch_filter blank_city_row_def)
  then show ?thesis
    using empty_answer_not_wildcard [OF q, of "''city''" "chicago_answers(Q2 := None)" no_fp
            "[chicago_row, blank_city_row]" Map.empty]
          empty_answer_not_wildcard [OF q, of "''city''" Map.empty no_fp "[Map.empty]" Map.empty]
    by (simp add: list_all_iff)
qed

section \<open>Phone numbers\<close>

lemma filter_dropWhile_disj: "(\<And>x. Q x \<Longrightarrow> \<not> P x) \<Longrightarrow> filter P (dropWhile Q xs) = filter P xs"
  by (induction xs) auto

lemma space_not_digit: "is_space x \<Longrightarrow> \<not> is_digit x"
  by (auto simp: is_space_def is_digit_def)

lemma digits_trim: "filter is_digit (trim s) = filter is_digit s"
proof -
  have "filter is_digit (trim s) = rev (filter is_digit (dropWhile is_space (rev (dropWhile is_space s))))"
    by (simp add: trim_def rev_filter)
  also have "\<dots> = rev (filter is_digit (rev (dropWhile is_space s)))"
    by (simp only: filter_dropWhile_disj [OF space_not_digit])
  also have "\<dots> = filter is_digit (dropWhile is_space s)"
    by (simp add: rev_filter)
  also have "\<dots> = filter is_digit s"
    by (simp only: filter_dropWhile_disj [OF space_not_digit])
  finally show ?thesis .
qed

lemma dropWhile_id: "xs = [] \<or> \<not> P (hd xs) \<Longrightarrow> dropWhile P xs = xs"
  by (cases xs) auto

lemma last_dropWhile: "dropWhile P xs \<noteq> [] \<Longrightarrow> last (dropWhile P xs) = last xs"
  by (induction xs) (auto split: if_splits)

lemma trim_ends:
  assumes "trim s \<noteq> []"
  shows "\<not> is_space (hd (trim s)) \<and> \<not> is_space (last (trim s))"
proof -
  define u where "u = dropWhile is_space s"
  define v where "v = dropWhile is_space (rev u)"
  have t: "trim s = rev v" by (simp add: trim_def u_def v_def)
  with assms have v: "v \<noteq> []" by simp
  then have hv: "\<not> is_space (hd v)" unfolding v_def by (rule hd_dropWhile)
  have "rev u \<noteq> []" using v unfolding v_def by auto
  then have u: "u \<noteq> []" by simp
  then have hu: "\<not> is_space (hd u)" unfolding u_def by (rule hd_dropWhile)
  have "last v = last (rev u)" using v unfolding v_def by (rule last_dropWhile)
  also have "\<dots> = hd u" using u by (simp add: last_rev)
  finally have "hd (rev v) = hd u" using v by (simp add: hd_rev)
  moreover have "last (rev v) = hd v" using v by (simp add: last_rev)
  ultimately show ?thesis using hv hu t by simp
qed

lemma trim_fixed: "t = [] \<or> (\<not> is_space (hd t) \<and> \<not> is_space (last t)) \<Longrightarrow> trim t = t"
proof (cases "t = []")
  case True then show ?thesis by (simp add: trim_def)
next
  case False
  assume "t = [] \<or> (\<not> is_space (hd t) \<and> \<not> is_space (last t))"
  with False have h: "\<not> is_space (hd t)" and l: "\<not> is_space (last t)" by auto
  have 1: "dropWhile is_space t = t" using h by (simp add: dropWhile_id)
  have "hd (rev t) = last t" using False by (simp add: hd_rev)
  then have 2: "dropWhile is_space (rev t) = rev t" using l by (simp add: dropWhile_id)
  show ?thesis by (simp only: trim_def 1 2 rev_rev_ident)
qed

lemma trim_idem: "trim (trim s) = trim s"
  using trim_ends [of s] by (intro trim_fixed) auto

lemma plus_digits_plus: "plus_digits lo hi (''+'' @ filter is_digit s) \<longleftrightarrow> lo \<le> length (filter is_digit s) \<and> length (filter is_digit s) \<le> hi"
  by (simp add: plus_digits_def list_all_iff)

lemma plus_not_digit: "\<not> is_digit CHR ''+''" "is_digit CHR ''1''"
  by (simp_all add: is_digit_def code_def)

lemma normalizePhone_twice: "normalizePhone (normalizePhone s) = normalizePhone s"
proof -
  define d where "d = filter is_digit s"
  have fd: "filter is_digit d = d" by (simp add: d_def)
  consider (a) "length d = 11 \<and> take 1 d = ''1''"
    | (b) "\<not> (length d = 11 \<and> take 1 d = ''1'')" "length d = 10"
    | (c) "\<not> (length d = 11 \<and> take 1 d = ''1'')" "length d \<noteq> 10" "7 \<le> length d \<and> length d \<le> 15"
    | (e) "\<not> (length d = 11 \<and> take 1 d = ''1'')" "length d \<noteq> 10" "\<not> (7 \<le> length d \<and> length d \<le> 15)"
    by blast
  then show ?thesis
  proof cases
    case a
    then have 1: "normalizePhone s = ''+'' @ d"
      by (simp add: normalizePhone_def d_def [symmetric])
    have "filter is_digit (''+'' @ d) = d" using fd by (simp add: plus_not_digit)
    then show ?thesis unfolding 1 using a by (simp add: normalizePhone_def)
  next
    case b
    then have 1: "normalizePhone s = ''+1'' @ d"
      by (simp add: normalizePhone_def d_def [symmetric])
    have "filter is_digit (''+1'' @ d) = CHR ''1'' # d" using fd by (simp add: plus_not_digit)
    then show ?thesis unfolding 1 using b by (simp add: normalizePhone_def)
  next
    case c
    then have 1: "normalizePhone s = ''+'' @ d"
      using plus_digits_plus [of 7 15 s] by (simp add: normalizePhone_def d_def [symmetric])
    have 2: "filter is_digit (''+'' @ d) = d" using fd by (simp add: plus_not_digit)
    show ?thesis unfolding 1 using c plus_digits_plus [of 7 15 s]
      by (simp add: normalizePhone_def 2 [simplified] plus_not_digit d_def [symmetric] fd)
  next
    case e
    then have 1: "normalizePhone s = trim s"
      using plus_digits_plus [of 7 15 s] by (auto simp: normalizePhone_def d_def [symmetric])
    have 2: "filter is_digit (trim s) = d" by (simp add: digits_trim d_def)
    have 3: "plus_digits 7 15 (''+'' @ d) \<longleftrightarrow> 7 \<le> length d \<and> length d \<le> 15"
      using plus_digits_plus [of 7 15 s] by (simp add: d_def)
    show ?thesis unfolding 1 using e 3
      by (auto simp: normalizePhone_def 2 trim_idem)
  qed
qed

text \<open>
  C9. \<open>normalizePhone\<close> is idempotent: normalising a normalised number, whichever branch
  produced it, changes nothing.
\<close>

theorem normalizePhone_idem: "normalizePhone (normalizePhone s) = normalizePhone s"
  by (rule normalizePhone_twice)

theorem normalizePhone_idem_witness:
  "normalizePhone (normalizePhone ''(555) 123-4567'') = ''+15551234567'' \<and>
   normalizePhone (normalizePhone ''+1 555 123 4567'') = ''+15551234567'' \<and>
   normalizePhone (normalizePhone ''+44 20 7946 0958'') = ''+442079460958'' \<and>
   normalizePhone (normalizePhone '' 12 34 '') = ''12 34''"
  using normalizePhone_idem [of "''(555) 123-4567''"] normalizePhone_idem [of "'' 12 34 ''"]
    normalizePhone_idem [of "''+1 555 123 4567''"] normalizePhone_idem [of "''+44 20 7946 0958''"]
  by (simp add: normalizePhone_def plus_digits_def trim_def is_digit_def is_space_def code_def)

text \<open>
  C6. An input with exactly ten digit characters normalises to \<open>+1\<close> followed by those
  digits; one with exactly eleven that begin with 1 normalises to \<open>+\<close> followed by them,
  which is \<open>+1\<close> and the ten digits after the leading 1; and \<open>isValidPhone\<close> accepts a
  string exactly when its normal form is \<open>+\<close> followed by 10 to 15 digits.
\<close>

theorem normalizePhone_spec:
  "(length (filter is_digit s) = 10 \<longrightarrow> normalizePhone s = ''+1'' @ filter is_digit s) \<and>
   (length (filter is_digit s) = 11 \<and> take 1 (filter is_digit s) = ''1'' \<longrightarrow>
      normalizePhone s = ''+'' @ filter is_digit s \<and>
      normalizePhone s = ''+1'' @ tl (filter is_digit s)) \<and>
   (isValidPhone s \<longleftrightarrow>
      (\<exists>ds. normalizePhone s = ''+'' @ ds \<and> list_all is_digit ds \<and> 10 \<le> length ds \<and> length ds \<le> 15))"
proof (intro conjI impI)
  show "isValidPhone s \<longleftrightarrow>
      (\<exists>ds. normalizePhone s = ''+'' @ ds \<and> list_all is_digit ds \<and> 10 \<le> length ds \<and> length ds \<le> 15)"
    by (auto simp: isValidPhone_def plus_digits_def split: list.splits)
next
  assume "length (filter is_digit s) = 10"
  then show "normalizePhone s = ''+1'' @ filter is_digit s"
    by (simp add: normalizePhone_def)
next
  assume a: "length (filter is_digit s) = 11 \<and> take 1 (filter is_digit s) = ''1''"
  then show "normalizePhone s = ''+'' @ filter is_digit s"
    by (simp add: normalizePhone_def)
  from a show "normalizePhone s = ''+1'' @ tl (filter is_digit s)"
    by (cases "filter is_digit s") (auto simp: normalizePhone_def)
qed

theorem normalizePhone_spec_witness:
  "normalizePhone ''(555) 123-4567'' = ''+15551234567'' \<and>
   normalizePhone ''1 (555) 123-4567'' = ''+15551234567'' \<and>
   isValidPhone ''555.123.4567'' \<and> \<not> isValidPhone ''123-4567''"
  using normalizePhone_spec [of "''(555) 123-4567''"] normalizePhone_spec [of "''1 (555) 123-4567''"]
    normalizePhone_spec [of "''555.123.4567''"] normalizePhone_spec [of "''123-4567''"]
  by (simp add: normalizePhone_def plus_digits_def trim_def is_digit_def is_space_def code_def)

section \<open>State names\<close>

lemma states_distinct: "distinct (map fst states)"
  by (simp add: states_def)

lemma states_keys: "(k, full) \<in> set states \<Longrightarrow> length k = 2 \<and> list_all is_upper k"
  by (auto simp: states_def is_upper_def code_def)

lemma upper_not_space: "is_upper (upper_char c) \<Longrightarrow> \<not> is_space c"
  by (auto simp: upper_char_def is_upper_def is_lower_def is_space_def split: if_splits)

lemma trim_core:
  assumes "list_all is_space w1" "list_all is_space w2" "ab \<noteq> []"
    "\<not> is_space (hd ab)" "\<not> is_space (last ab)"
  shows "trim (w1 @ ab @ w2) = ab"
proof -
  have 1: "dropWhile is_space (w1 @ ab @ w2) = ab @ w2"
    using assms(1,3,4) by (cases ab) (auto simp: list_all_iff dropWhile_append2)
  have "dropWhile is_space (rev w2 @ rev ab) = dropWhile is_space (rev ab)"
    by (rule dropWhile_append2) (use assms(2) in \<open>auto simp: list_all_iff\<close>)
  also have "\<dots> = rev ab"
    using assms(3,5) by (intro dropWhile_id) (simp add: hd_rev)
  finally show ?thesis
    by (simp add: trim_def 1)
qed

text \<open>
  On ASCII text: every two-letter abbreviation of the table, written in any letter case
  and with white space around it, gives the full state name, and that name is what the
  state question is matched with; an input whose trimmed, upper-cased form is no key
  of the table is returned trimmed.
\<close>

lemma stateFromInput_ascii:
  "((k, full) \<in> set states \<and> toUpperCase ab = k \<and> list_all is_space w1 \<and> list_all is_space w2 \<longrightarrow>
      length ab = 2 \<and>
      stateFromInput (w1 @ ab @ w2) = full \<and>
      interpretAnswer fp Q1 (w1 @ ab @ w2) = full \<and>
      matches fp r \<lparr>qident = Q1, csvColumn = Some ''state'', inputType = TextInput\<rparr> (w1 @ ab @ w2)
        = cell_is r ''state'' full) \<and>
   (toUpperCase (trim s) \<notin> fst ` set states \<longrightarrow> stateFromInput s = trim s)"
proof (intro conjI impI)
  assume "toUpperCase (trim s) \<notin> fst ` set states"
  then have "map_of states (toUpperCase (trim s)) = None"
    by (simp add: map_of_eq_None_iff)
  then show "stateFromInput s = trim s"
    by (simp add: stateFromInput_def)
next
  assume a: "(k, full) \<in> set states \<and> toUpperCase ab = k \<and> list_all is_space w1 \<and> list_all is_space w2"
  then have k: "length k = 2" "list_all is_upper k"
    using states_keys by auto
  from a k show len: "length ab = 2"
    by (auto simp: toUpperCase_def)
  from a k have "list_all (\<lambda>c. \<not> is_space c) ab"
    by (auto simp: toUpperCase_def list_all_iff dest: upper_not_space)
  moreover from len have ne: "ab \<noteq> []"
    by auto
  moreover from ne have "hd ab \<in> set ab" "last ab \<in> set ab"
    by simp_all
  ultimately have "ab \<noteq> []" "\<not> is_space (hd ab)" "\<not> is_space (last ab)"
    by (auto simp: list_all_iff)
  with a have t: "trim (w1 @ ab @ w2) = ab"
    by (simp add: trim_core)
  from a have "map_of states k = Some full"
    using states_distinct by (simp add: map_of_is_SomeI)
  with a t show s: "stateFromInput (w1 @ ab @ w2) = full"
    by (simp add: stateFromInput_def)
  then show i: "interpretAnswer fp Q1 (w1 @ ab @ w2) = full"
    by (simp add: interpretAnswer_def)
  show "matches fp r \<lparr>qident = Q1, csvColumn = Some ''state'', inputType = TextInput\<rparr> (w1 @ ab @ w2)
        = cell_is r ''state'' full"
    by (simp add: matches_mapped i)
qed

lemma stateFromInput_ascii_sample:
  "(''IL'', ''Illinois'') \<in> set states \<and>
   stateFromInput ''  iL '' = ''Illinois'' \<and>
   cell_is chicago_row2 ''state'' (interpretAnswer no_fp Q1 ''  iL '') \<and>
   stateFromInput '' Illinois  '' = ''Illinois'' \<and>
   stateFromInput '' Cook County '' = ''Cook County''"
proof -
  have 1: "(''IL'', ''Illinois'') \<in> set states" by (simp add: states_def)
  have 2: "toUpperCase ''iL'' = ''IL''" by (simp add: eval_defs)
  have 3: "list_all is_space ''  ''" "list_all is_space '' ''" by (simp_all add: is_space_def code_def)
  have 4: "toUpperCase (trim '' Illinois  '') \<notin> fst ` set states"
    "toUpperCase (trim '' Cook County '') \<notin> fst ` set states"
    by (simp_all add: eval_defs)
  have 5: "cell_is chicago_row2 ''state'' ''Illinois''"
    by (simp add: chicago_row2_def eval_defs)
  have 6: "trim '' Illinois  '' = ''Illinois''" "trim '' Cook County '' = ''Cook County''"
    by (simp_all add: eval_defs)
  show ?thesis
    using stateFromInput_ascii [of "''IL''" "''Illinois''" "''iL''" "''  ''" "'' ''" no_fp chicago_row2 "'' Illinois  ''"]
      stateFromInput_ascii [of "''IL''" "''Illinois''" "''iL''" "''  ''" "'' ''" no_fp chicago_row2 "'' Cook County ''"]
      1 2 3 4 5 6
    by simp
qed

section \<open>State names over code units\<close>

lemmas wide_defs = stateFromInput_u_def stateFromInput2_u_def trim_u_def is_space_u_def
  upper_letters_def is_ascii_letter_def states_def Let_def

lemma letter_not_space_u: "is_ascii_letter c \<Longrightarrow> \<not> is_space_u c"
  by (auto simp: is_ascii_letter_def is_space_u_def)

lemma trim_u_core:
  assumes "list_all is_space_u w1" "list_all is_space_u w2" "ab \<noteq> []"
    "\<not> is_space_u (hd ab)" "\<not> is_space_u (last ab)"
  shows "trim_u (w1 @ ab @ w2) = ab"
proof -
  have 1: "dropWhile is_space_u (w1 @ ab @ w2) = ab @ w2"
    using assms(1,3,4) by (cases ab) (auto simp: list_all_iff dropWhile_append2)
  have "dropWhile is_space_u (rev w2 @ rev ab) = dropWhile is_space_u (rev ab)"
    by (rule dropWhile_append2) (use assms(2) in \<open>auto simp: list_all_iff\<close>)
  also have "\<dots> = rev ab"
    using assms(3,5) by (intro dropWhile_id) (simp add: hd_rev)
  finally show ?thesis
    by (simp add: trim_u_def 1)
qed

lemma upper_key_letters: "list_all is_ascii_letter ab \<Longrightarrow> upper_key ab = Some k \<Longrightarrow> length k = length ab"
proof (induction ab arbitrary: k)
  case Nil
  then show ?case by simp
next
  case (Cons c cs)
  from Cons.prems(1) obtain u where u: "upper_letters c = Some [u]"
    by (auto simp: upper_letters_def is_ascii_letter_def)
  with Cons.prems(2) obtain k' where k': "upper_key cs = Some k'" "k = u # k'"
    by (auto split: option.splits)
  with Cons.IH [of k'] Cons.prems(1) show ?case
    by simp
qed

text \<open>
  Both versions expand every abbreviation of the table, in any letter case and with
  white space of any kind around it.
\<close>

lemma stateFromInput_u_abbrev:
  assumes "(k, full) \<in> set states" "upper_key ab = Some k" "list_all is_ascii_letter ab"
    "list_all is_space_u w1" "list_all is_space_u w2"
  shows "stateFromInput_u (w1 @ ab @ w2) = units full"
    and "stateFromInput2_u (w1 @ ab @ w2) = units full"
proof -
  have len: "length ab = 2"
    using upper_key_letters [OF assms(3,2)] states_keys [OF assms(1)] by simp
  then have ne: "ab \<noteq> []"
    by auto
  then have "hd ab \<in> set ab" "last ab \<in> set ab"
    by simp_all
  then have "\<not> is_space_u (hd ab)" "\<not> is_space_u (last ab)"
    using assms(3) by (auto simp: list_all_iff dest: letter_not_space_u)
  with ne assms(4,5) have t: "trim_u (w1 @ ab @ w2) = ab"
    by (intro trim_u_core)
  have m: "map_of states k = Some full"
    using assms(1) states_distinct by (simp add: map_of_is_SomeI)
  show "stateFromInput_u (w1 @ ab @ w2) = units full"
    by (simp add: stateFromInput_u_def t assms(2) m)
  show "stateFromInput2_u (w1 @ ab @ w2) = units full"
    by (simp add: stateFromInput2_u_def t assms(2,3) m len)
qed

text \<open>The later version returns everything else trimmed; the first one does not.\<close>

lemma stateFromInput2_u_other:
  "\<not> (length (trim_u inp) = 2 \<and> list_all is_ascii_letter (trim_u inp)) \<Longrightarrow>
   stateFromInput2_u inp = trim_u inp"
  by (auto simp: stateFromInput2_u_def Let_def)

text \<open>
  C5. The first version of \<open>stateFromInput\<close> does not return every input that is no
  two-letter abbreviation trimmed and unchanged: the one-character input U+FB02 (the
  ligature fl) upper-cases to FL and comes back as Florida, and long s followed by c
  comes back as South Carolina. The later version, which tests the trimmed input for
  two ASCII letters first, returns both unchanged. An abbreviation between no-break
  spaces is expanded by both.
\<close>

theorem stateFromInput_expands_ligature:
  "trim_u [64258] = [64258] \<and>
   stateFromInput_u [64258] = units ''Florida'' \<and>
   stateFromInput_u [383, 99] = units ''South Carolina'' \<and>
   stateFromInput2_u [64258] = [64258] \<and>
   stateFromInput2_u [383, 99] = [383, 99] \<and>
   stateFromInput_u [160, 105, 108, 160] = units ''Illinois'' \<and>
   stateFromInput2_u [160, 105, 108, 160] = units ''Illinois''"
  by (simp add: wide_defs)


section \<open>Bond limits\<close>

lemma dec_digits: "list_all is_digit (dec n)"
proof (induction n rule: dec.induct)
  case (1 n)
  have d: "is_digit (digit_char m)" if "m < 10" for m
  proof -
    from that have "m \<in> {0,1,2,3,4,5,6,7,8,9}" by auto
    then show ?thesis by (auto simp: digit_char_def is_digit_def code_def)
  qed
  show ?case
  proof (cases "n < 10")
    case True
    then show ?thesis by (subst dec.simps) (simp add: d)
  next
    case False
    then show ?thesis using 1 by (subst dec.simps) (simp add: d)
  qed
qed

lemma normalize_plain:
  assumes "list_all (\<lambda>c. \<not> is_space c \<and> \<not> is_upper c) t"
  shows "normalize t = t"
proof -
  have "t = [] \<or> (\<not> is_space (hd t) \<and> \<not> is_space (last t))"
    using assms by (cases t) (auto simp: list_all_iff)
  then have "trim t = t" by (rule trim_fixed)
  moreover have "map lower_char t = t"
    using assms by (induction t) (auto simp: lower_char_def)
  ultimately show ?thesis by (simp add: normalize_def toLowerCase_def)
qed

lemma digit_plain: "is_digit c \<Longrightarrow> \<not> is_space c \<and> \<not> is_upper c"
  by (auto simp: is_digit_def is_space_def is_upper_def)

lemma normalize_dec: "normalize (dec n) = dec n" "normalize (CHR ''-'' # dec n) = CHR ''-'' # dec n"
proof -
  have m: "\<not> is_space CHR ''-'' \<and> \<not> is_upper CHR ''-''"
    by (simp add: is_space_def is_upper_def code_def)
  have d: "list_all (\<lambda>c. \<not> is_space c \<and> \<not> is_upper c) (dec n)"
    using dec_digits [of n] by (auto simp: list_all_iff digit_plain)
  show "normalize (dec n) = dec n"
    using d by (rule normalize_plain)
  show "normalize (CHR ''-'' # dec n) = CHR ''-'' # dec n"
    using d m by (intro normalize_plain) simp
qed

text \<open>
  C3 (as amended). The bond limit is compared as text, not as a number: the row matches
  exactly when its \<open>bond_limit\<close> cell equals the interpreted answer, both trimmed and
  lower-cased. Only the answer is interpreted: the characters outside \<^verbatim>\<open>[0-9.-]\<close> are
  stripped and the rest is read as a number. If that number is a non-zero integer below
  \<open>2^53\<close> in magnitude, the interpreted answer is its plain decimal digits (after a minus
  sign if it is negative); if it is 0 or NaN, it is the answer as typed; otherwise it is
  the number as the engine prints it, or the answer as typed if the number rounds to 0.
\<close>

theorem bond_limit_textual:
  assumes "q \<in> set QUESTION_CONFIG" "qident q = Q3"
  shows "(Number (strip_non_numeric a) = SafeInt neg n \<longrightarrow>
            matches fp r q a =
              (\<exists>raw. r ''bond_limit'' = Some raw \<and> normalize raw = (if neg then ''-'' else '''') @ dec n)) \<and>
         (Number (strip_non_numeric a) = Zero \<or> Number (strip_non_numeric a) = NaN \<longrightarrow>
            matches fp r q a = (\<exists>raw. r ''bond_limit'' = Some raw \<and> normalize raw = normalize a)) \<and>
         (Number (strip_non_numeric a) = Inexact \<longrightarrow>
            matches fp r q a =
              (\<exists>raw. r ''bond_limit'' = Some raw \<and>
                 normalize raw = normalize (case fp (strip_non_numeric a) of Some s \<Rightarrow> s | None \<Rightarrow> a)))"
proof -
  from assms have q: "csvColumn q = Some ''bond_limit''"
    by (auto simp: QUESTION_CONFIG_def)
  then have m: "matches fp r q a = cell_is r ''bond_limit'' (interpretAnswer fp Q3 a)"
    using assms(2) by (simp add: matches_mapped)
  have c: "cell_is r ''bond_limit'' t = (\<exists>raw. r ''bond_limit'' = Some raw \<and> normalize raw = normalize t)" for t
    by (auto simp: cell_is_def split: option.splits)
  have 1: "interpretAnswer fp Q3 a = (if neg then ''-'' else '''') @ dec n"
    if "Number (strip_non_numeric a) = SafeInt neg n"
    using that by (simp add: interpretAnswer_def)
  have 2: "interpretAnswer fp Q3 a = a"
    if "Number (strip_non_numeric a) = Zero \<or> Number (strip_non_numeric a) = NaN"
    using that by (auto simp: interpretAnswer_def)
  have 3: "interpretAnswer fp Q3 a = (case fp (strip_non_numeric a) of Some s \<Rightarrow> s | None \<Rightarrow> a)"
    if "Number (strip_non_numeric a) = Inexact"
    using that by (simp add: interpretAnswer_def)
  have s: "normalize ((if neg then ''-'' else '''') @ dec n) = (if neg then ''-'' else '''') @ dec n"
    by (simp add: normalize_dec)
  show ?thesis
    unfolding m c using 1 2 3 s by metis
qed

theorem bond_limit_textual_witness:
  "matches no_fp (limit_row ''50000 '') \<lparr>qident = Q3, csvColumn = Some ''bond_limit'', inputType = NumberInput\<rparr> ''$50,000'' \<and>
   \<not> matches no_fp (limit_row ''50,000'') \<lparr>qident = Q3, csvColumn = Some ''bond_limit'', inputType = NumberInput\<rparr> ''$50,000'' \<and>
   \<not> matches no_fp (limit_row ''0'') \<lparr>qident = Q3, csvColumn = Some ''bond_limit'', inputType = NumberInput\<rparr> ''$0'' \<and>
   matches no_fp (limit_row ''abc'') \<lparr>qident = Q3, csvColumn = Some ''bond_limit'', inputType = NumberInput\<rparr> '' ABC '' \<and>
   matches no_fp (limit_row ''1-2'') \<lparr>qident = Q3, csvColumn = Some ''bond_limit'', inputType = NumberInput\<rparr> ''1-2'' \<and>
   matches sample_fp (limit_row ''1.5'') \<lparr>qident = Q3, csvColumn = Some ''bond_limit'', inputType = NumberInput\<rparr> ''1.50'' \<and>
   \<not> matches sample_fp (limit_row ''1.50'') \<lparr>qident = Q3, csvColumn = Some ''bond_limit'', inputType = NumberInput\<rparr> ''1.50''"
proof -
  let ?q = "\<lparr>qident = Q3, csvColumn = Some ''bond_limit'', inputType = NumberInput\<rparr>"
  have q: "?q \<in> set QUESTION_CONFIG" "qident ?q = Q3"
    by (simp_all add: QUESTION_CONFIG_def)
  have n: "Number (strip_non_numeric ''$50,000'') = SafeInt False 50000"
    "Number (strip_non_numeric ''$0'') = Zero" "Number (strip_non_numeric '' ABC '') = Zero"
    "Number (strip_non_numeric ''1-2'') = NaN" "Number ''1.50'' = Inexact"
    "strip_non_numeric ''1.50'' = ''1.50''"
    by (simp_all add: eval_defs)
  have d: "dec 50000 = ''50000''"
    by (simp add: dec.simps digit_char_def)
  have c: "normalize ''50000 '' = ''50000''" "normalize ''50,000'' = ''50,000''" "normalize ''0'' = ''0''"
    "normalize ''$0'' = ''$0''" "normalize ''abc'' = ''abc''" "normalize '' ABC '' = ''abc''"
    "normalize ''1-2'' = ''1-2''" "normalize ''1.5'' = ''1.5''" "normalize ''1.50'' = ''1.50''"
    by (simp_all add: eval_defs)
  show ?thesis
    using bond_limit_textual [OF q, of "''$50,000''" False 50000 no_fp "limit_row ''50000 ''"]
      bond_limit_textual [OF q, of "''$50,000''" False 50000 no_fp "limit_row ''50,000''"]
      bond_limit_textual [OF q, of "''$0''" False 0 no_fp "limit_row ''0''"]
      bond_limit_textual [OF q, of "'' ABC ''" False 0 no_fp "limit_row ''abc''"]
      bond_limit_textual [OF q, of "''1-2''" False 0 no_fp "limit_row ''1-2''"]
      bond_limit_textual [OF q, of "''1.50''" False 0 sample_fp "limit_row ''1.5''"]
      bond_limit_textual [OF q, of "''1.50''" False 0 sample_fp "limit_row ''1.50''"]
    by (simp add: n d c limit_row_def sample_fp_def)
qed

text \<open>
  C3 as stated fails: the answer \<open>$50,000\<close> and the cell \<open>50,000\<close> denote the same number
  once the non-numeric characters are stripped, yet the row does not match.
\<close>

theorem bond_limit_numeric_counterexample:
  "Number (strip_non_numeric ''$50,000'') = SafeInt False 50000 \<and>
   Number (strip_non_numeric ''50,000'') = SafeInt False 50000 \<and>
   springfield_row ''bond_limit'' = Some ''50,000'' \<and>
   \<not> matches no_fp springfield_row \<lparr>qident = Q3, csvColumn = Some ''bond_limit'', inputType = NumberInput\<rparr> ''$50,000''"
  by (simp add: matches_def springfield_row_def eval_defs)

section \<open>The date window\<close>

lemmas date_defs = validateQ5_def jsDate_def parseYMD_def todayYMD_def plusOneYearYMD_def ymd_def pad2_def
  plusOneYear_def valid_civil_def DaysInMonth_def InLeapYear_def MakeDay_def DayFromYear_def
  month_start_def msPerDay_def date_less_def no_ext_def digits_val_def is_digit_def code_def
  dec.simps digit_char_def

lemma div_step:
  fixes x k :: int
  assumes "0 < k"
  shows "(x + 1) div k - x div k = (if (x + 1) mod k = 0 then 1 else 0)"
proof -
  define q where "q = (x + 1) div k"
  define r where "r = (x + 1) mod k"
  have e: "x + 1 = k * q + r"
    by (simp add: q_def r_def)
  have r: "0 \<le> r" "r < k"
    using assms by (simp_all add: r_def)
  show ?thesis
  proof (cases "r = 0")
    case True
    then have "x = k * (q - 1) + (k - 1)"
      using e by (simp add: algebra_simps)
    then have "x div k = q - 1"
      using assms by (intro int_div_pos_eq [of _ _ _ "k - 1"]) auto
    then show ?thesis
      using True by (simp add: q_def r_def)
  next
    case False
    then have "x = k * q + (r - 1)"
      using e by simp
    then have "x div k = q"
      using r False by (intro int_div_pos_eq [of _ _ _ "r - 1"]) auto
    then show ?thesis
      using False by (simp add: q_def r_def)
  qed
qed

lemma leap_int: "InLeapYear y \<longleftrightarrow> ((int y mod 4 = 0 \<and> int y mod 100 \<noteq> 0) \<or> int y mod 400 = 0)"
proof -
  have "int (y mod 4) = int y mod 4" "int (y mod 100) = int y mod 100" "int (y mod 400) = int y mod 400"
    by (simp_all add: zmod_int)
  then have "(y mod 4 = 0) = (int y mod 4 = 0)" "(y mod 100 = 0) = (int y mod 100 = 0)"
    "(y mod 400 = 0) = (int y mod 400 = 0)"
    by (metis of_nat_eq_0_iff)+
  then show ?thesis
    by (simp add: InLeapYear_def)
qed

lemma mod_shift:
  "(x - 1968) mod 4 = x mod 4" "(x - 1900) mod 100 = x mod 100" "(x - 1600) mod 400 = x mod 400" for x :: int
proof -
  have "(x - 492 * 4) mod 4 = x mod 4" "(x - 19 * 100) mod 100 = x mod 100" "(x - 4 * 400) mod 400 = x mod 400"
    by (simp_all only: mod_mult_self3 diff_conv_add_uminus mult_minus_left [symmetric] mod_mult_self1)
  then show "(x - 1968) mod 4 = x mod 4" "(x - 1900) mod 100 = x mod 100" "(x - 1600) mod 400 = x mod 400"
    by simp_all
qed


lemma DayFromYear_Suc: "DayFromYear (int y + 1) - DayFromYear (int y) = (if InLeapYear y then 366 else 365)"
proof -
  have 4: "(int y - 1968) div 4 - (int y - 1969) div 4 = (if int y mod 4 = 0 then 1 else 0)"
    using div_step [of 4 "int y - 1969"] by (simp add: mod_shift)
  have 100: "(int y - 1900) div 100 - (int y - 1901) div 100 = (if int y mod 100 = 0 then 1 else 0)"
    using div_step [of 100 "int y - 1901"] by (simp add: mod_shift)
  have 400: "(int y - 1600) div 400 - (int y - 1601) div 400 = (if int y mod 400 = 0 then 1 else 0)"
    using div_step [of 400 "int y - 1601"] by (simp add: mod_shift)
  have "(100::int) dvd 400" "(4::int) dvd 100"
    by simp_all
  then have m: "int y mod 400 = 0 \<Longrightarrow> int y mod 100 = 0" "int y mod 100 = 0 \<Longrightarrow> int y mod 4 = 0"
    by (meson dvd_trans mod_eq_0_iff_dvd)+
  have "DayFromYear (int y + 1) - DayFromYear (int y) =
      365 + ((int y - 1968) div 4 - (int y - 1969) div 4) - ((int y - 1900) div 100 - (int y - 1901) div 100)
        + ((int y - 1600) div 400 - (int y - 1601) div 400)"
    by (simp add: DayFromYear_def)
  then show ?thesis
    unfolding 4 100 400 leap_int using m by auto
qed

lemma leap_next: "InLeapYear y \<Longrightarrow> \<not> InLeapYear (Suc y)"
  unfolding InLeapYear_def by presburger

lemma month_cases: "1 \<le> m \<Longrightarrow> m \<le> 12 \<Longrightarrow> m \<in> {1, 2, 3, 4, 5, 6, 7, 8, 9, 10, 11, 12}" for m :: nat
  unfolding insert_iff empty_iff by arith

lemma one_year_span:
  assumes "valid_civil now"
  shows "MakeDay (plusOneYear now) - MakeDay now =
           (case now of (y, m, d) \<Rightarrow> if (InLeapYear y \<and> m \<le> 2) \<or> (InLeapYear (y + 1) \<and> 2 < m) then 366 else 365)"
proof -
  obtain y m d where now: "now = (y, m, d)"
    by (cases now) auto
  have dy: "DayFromYear (int y + 1) = DayFromYear (int y) + (if InLeapYear y then 366 else 365)"
    "DayFromYear (1 + int y) = DayFromYear (int y) + (if InLeapYear y then 366 else 365)"
    using DayFromYear_Suc [of y] by (simp_all add: add.commute)
  from assms now have m: "m \<in> {1, 2, 3, 4, 5, 6, 7, 8, 9, 10, 11, 12}"
    by (intro month_cases) (auto simp: valid_civil_def)
  show ?thesis
  proof (cases "m = 2 \<and> d = 29")
    case True
    with assms now have l: "InLeapYear y"
      by (auto simp: valid_civil_def DaysInMonth_def split: if_splits)
    then have "\<not> InLeapYear (y + 1)"
      using leap_next by simp
    with True l show ?thesis
      by (simp add: now plusOneYear_def MakeDay_def dy month_start_def)
  next
    case False
    then have p: "plusOneYear (y, m, d) = (y + 1, m, d)"
      by (auto simp: plusOneYear_def)
    show ?thesis
      using leap_next [of y] by (auto simp: now p MakeDay_def dy)
  qed
qed



lemma dec_small: "n < 10 \<Longrightarrow> dec n = [digit_char n]"
  by (subst dec.simps) simp

lemma dec_step: "10 \<le> n \<Longrightarrow> dec n = dec (n div 10) @ [digit_char (n mod 10)]"
  by (subst dec.simps) simp

lemma digit_char_code: "m < 10 \<Longrightarrow> code (digit_char m) = 48 + m"
proof -
  assume "m < 10"
  then have "m \<in> {0, 1, 2, 3, 4, 5, 6, 7, 8, 9}"
    unfolding insert_iff empty_iff by arith
  then show ?thesis
    by (auto simp: digit_char_def code_def)
qed

lemma digits_val_snoc: "digits_val (xs @ [c]) = 10 * digits_val xs + (code c - 48)"
  by (simp add: digits_val_def)

lemma digits_val_dec: "digits_val (dec n) = n"
proof (induction n rule: dec.induct)
  case (1 n)
  show ?case
  proof (cases "n < 10")
    case True
    then show ?thesis
      by (simp add: dec_small digits_val_def digit_char_code)
  next
    case False
    then have "digits_val (dec (n div 10)) = n div 10"
      using 1 by simp
    with False show ?thesis
      by (simp add: dec_step digits_val_snoc digit_char_code)
  qed
qed

lemma dec_length:
  "n < 10 \<Longrightarrow> length (dec n) = 1"
  "10 \<le> n \<Longrightarrow> n < 100 \<Longrightarrow> length (dec n) = 2"
  "100 \<le> n \<Longrightarrow> n < 1000 \<Longrightarrow> length (dec n) = 3"
  "1000 \<le> n \<Longrightarrow> n < 10000 \<Longrightarrow> length (dec n) = 4"
proof -
  show 1: "length (dec n) = 1" if "n < 10" for n
    using that by (simp add: dec_small)
  show 2: "length (dec n) = 2" if "10 \<le> n" "n < 100" for n
    using that 1 [of "n div 10"] by (simp add: dec_step)
  show 3: "length (dec n) = 3" if "100 \<le> n" "n < 1000" for n
    using that 2 [of "n div 10"] by (simp add: dec_step)
  show "length (dec n) = 4" if "1000 \<le> n" "n < 10000" for n
    using that 3 [of "n div 10"] by (simp add: dec_step)
qed

lemma pad2_props:
  assumes "n < 100"
  shows "length (pad2 n) = 2" "digits_val (pad2 n) = n" "list_all is_digit (pad2 n)"
proof -
  have z: "is_digit CHR ''0''" "code CHR ''0'' = 48"
    by (simp_all add: is_digit_def code_def)
  show "length (pad2 n) = 2"
    using assms by (auto simp: pad2_def dec_length)
  have "digits_val (CHR ''0'' # dec n) = digits_val (dec n)"
    by (simp add: digits_val_def z)
  then show "digits_val (pad2 n) = n"
    by (simp add: pad2_def digits_val_dec)
  show "list_all is_digit (pad2 n)"
    using dec_digits [of n] by (simp add: pad2_def z)
qed

lemma length2E: "length xs = 2 \<Longrightarrow> (\<And>a b. xs = [a, b] \<Longrightarrow> P) \<Longrightarrow> P"
  by (cases xs; cases "tl xs") auto

lemma length4E: "length xs = 4 \<Longrightarrow> (\<And>a b c d. xs = [a, b, c, d] \<Longrightarrow> P) \<Longrightarrow> P"
  by (auto simp: length_Suc_conv numeral_eq_Suc)

lemma month_day_bounds: "valid_civil (y, m, d) \<Longrightarrow> m < 100 \<and> d < 100"
  by (auto simp: valid_civil_def DaysInMonth_def split: if_splits)

lemma parseYMD_ymd:
  assumes v: "valid_civil (y, m, d)" and y: "1000 \<le> y" "y < 10000"
  shows "parseYMD (ymd (y, m, d)) = Some (y, m, d)"
proof -
  from v have b: "m < 100" "d < 100"
    using month_day_bounds by auto
  obtain y1 y2 y3 y4 where dy: "dec y = [y1, y2, y3, y4]"
    using dec_length(4) [OF y] by (rule length4E)
  obtain m1 m2 where dm: "pad2 m = [m1, m2]"
    using pad2_props(1) [OF b(1)] by (rule length2E)
  obtain d1 d2 where dd: "pad2 d = [d1, d2]"
    using pad2_props(1) [OF b(2)] by (rule length2E)
  have s: "ymd (y, m, d) = [y1, y2, y3, y4, CHR ''-'', m1, m2, CHR ''-'', d1, d2]"
    by (simp add: ymd_def dy dm dd)
  have 1: "list_all is_digit [y1, y2, y3, y4]" "digits_val [y1, y2, y3, y4] = y"
    using dec_digits [of y] digits_val_dec [of y] by (simp_all add: dy)
  have 2: "list_all is_digit [m1, m2]" "digits_val [m1, m2] = m"
    using pad2_props(2,3) [OF b(1)] by (simp_all add: dm)
  have 3: "list_all is_digit [d1, d2]" "digits_val [d1, d2] = d"
    using pad2_props(2,3) [OF b(2)] by (simp_all add: dd)
  show ?thesis
    unfolding s parseYMD_def using 1 2 3 v by simp
qed

lemma plusOneYear_valid: "valid_civil c \<Longrightarrow> valid_civil (plusOneYear c)"
  by (cases c) (auto simp: valid_civil_def plusOneYear_def DaysInMonth_def split: if_splits)

lemma plusOneYear_year: "fst (plusOneYear c) = fst c + 1"
  by (cases c) (auto simp: plusOneYear_def)

lemma window_bounds:
  assumes "valid_civil now" "1000 \<le> fst now" "fst now < 9999"
  shows "jsDate ext (todayYMD now) = Some (MakeDay now * msPerDay)"
    and "jsDate ext (plusOneYearYMD now) = Some (MakeDay (plusOneYear now) * msPerDay)"
proof -
  obtain y m d where now: "now = (y, m, d)"
    by (cases now) auto
  with assms have "parseYMD (ymd (y, m, d)) = Some (y, m, d)"
    by (intro parseYMD_ymd) auto
  then show "jsDate ext (todayYMD now) = Some (MakeDay now * msPerDay)"
    by (simp add: jsDate_def todayYMD_def now)
  obtain y' m' d' where p: "plusOneYear (y, m, d) = (y', m', d')"
    by (cases "plusOneYear (y, m, d)") auto
  have "valid_civil (y', m', d')" "y' = y + 1"
    using plusOneYear_valid [OF assms(1)] plusOneYear_year [of now] unfolding now p by simp_all
  with assms now have "parseYMD (ymd (y', m', d')) = Some (y', m', d')"
    by (intro parseYMD_ymd) auto
  then show "jsDate ext (plusOneYearYMD now) = Some (MakeDay (plusOneYear now) * msPerDay)"
    by (simp add: jsDate_def plusOneYearYMD_def now p)
qed

text \<open>
  C2 (as amended). With today's date in a four-digit year, \<open>validateQ5\<close> accepts a string
  exactly when it parses as a date whose time value lies in the closed interval from
  midnight UTC of today to midnight UTC of the same calendar date one year later
  (29 February rolling over to 1 March). The interval is 365 days long, and 366 days
  when a 29 February falls inside it.
\<close>

theorem date_window:
  assumes "valid_civil now" "1000 \<le> fst now" "fst now < 9999"
  shows "(validateQ5 ext now val = [] \<longleftrightarrow>
            (\<exists>t. jsDate ext val = Some t \<and>
                 MakeDay now * msPerDay \<le> t \<and> t \<le> MakeDay (plusOneYear now) * msPerDay)) \<and>
         MakeDay (plusOneYear now) - MakeDay now =
           (case now of (y, m, d) \<Rightarrow>
              if (InLeapYear y \<and> m \<le> 2) \<or> (InLeapYear (y + 1) \<and> 2 < m) then 366 else 365)"
proof
  show "validateQ5 ext now val = [] \<longleftrightarrow>
            (\<exists>t. jsDate ext val = Some t \<and>
                 MakeDay now * msPerDay \<le> t \<and> t \<le> MakeDay (plusOneYear now) * msPerDay)"
    unfolding validateQ5_def window_bounds [OF assms] Let_def
    by (cases "jsDate ext val") (auto simp: date_less_def)
  show "MakeDay (plusOneYear now) - MakeDay now =
           (case now of (y, m, d) \<Rightarrow>
              if (InLeapYear y \<and> m \<le> 2) \<or> (InLeapYear (y + 1) \<and> 2 < m) then 366 else 365)"
    using assms(1) by (rule one_year_span)
qed

theorem date_window_witness:
  "validateQ5 no_ext (2023, 6, 15) ''2024-06-15'' = [] \<and>
   validateQ5 no_ext (2023, 6, 15) ''2023-06-15'' = [] \<and>
   validateQ5 no_ext (2023, 6, 15) ''2024-06-16'' \<noteq> [] \<and>
   validateQ5 no_ext (2023, 6, 15) ''2023-06-14'' \<noteq> [] \<and>
   MakeDay (plusOneYear (2023, 6, 15)) - MakeDay (2023, 6, 15) = 366"
proof -
  have v: "valid_civil (2023, 6, 15)" "1000 \<le> fst (2023 :: nat, 6 :: nat, 15 :: nat)"
    "fst (2023 :: nat, 6 :: nat, 15 :: nat) < 9999"
    by (simp_all add: valid_civil_def DaysInMonth_def)
  have p: "jsDate no_ext ''2024-06-15'' = Some (MakeDay (2024, 6, 15) * msPerDay)"
    "jsDate no_ext ''2023-06-15'' = Some (MakeDay (2023, 6, 15) * msPerDay)"
    "jsDate no_ext ''2024-06-16'' = Some (MakeDay (2024, 6, 16) * msPerDay)"
    "jsDate no_ext ''2023-06-14'' = Some (MakeDay (2023, 6, 14) * msPerDay)"
    by (simp_all add: jsDate_def parseYMD_def valid_civil_def DaysInMonth_def InLeapYear_def
        digits_val_def is_digit_def code_def)
  have m: "MakeDay (2024, 6, 15) = 19889" "MakeDay (2023, 6, 15) = 19523" "MakeDay (2024, 6, 16) = 19890"
    "MakeDay (2023, 6, 14) = 19522" "plusOneYear (2023, 6, 15) = (2024, 6, 15)"
    by (simp_all add: MakeDay_def DayFromYear_def month_start_def InLeapYear_def plusOneYear_def)
  show ?thesis
    using date_window [OF v, of no_ext "''2024-06-15''"] date_window [OF v, of no_ext "''2023-06-15''"]
      date_window [OF v, of no_ext "''2024-06-16''"] date_window [OF v, of no_ext "''2023-06-14''"]
    by (simp add: p m msPerDay_def InLeapYear_def)
qed

text \<open>
  C2 as stated fails: on 2023-06-15 the date 2024-06-15 is accepted, and it is 366 days
  after today, outside \<open>[today, today + 365 days]\<close>.
\<close>

theorem date_365_counterexample:
  "validateQ5 no_ext (2023, 6, 15) ''2024-06-15'' = [] \<and>
   jsDate no_ext ''2024-06-15'' = Some ((MakeDay (2023, 6, 15) + 366) * msPerDay) \<and>
   jsDate no_ext (todayYMD (2023, 6, 15)) = Some (MakeDay (2023, 6, 15) * msPerDay)"
  by (simp add: date_defs)

section \<open>The wizard's invariant\<close>































lemma records_same: "answers w' = answers w \<Longrightarrow> \<not> records_answer w w'"
  by (auto simp: records_answer_def)

lemma records_empty: "answers w' = Map.empty \<Longrightarrow> \<not> records_answer w w'"
  by (auto simp: records_answer_def)


lemma all_fields: "f \<in> fst ` set PURCHASE_FIELDS"
  by (cases f) (simp_all add: PURCHASE_FIELDS_def)











section \<open>Failure of the remote lookup\<close>

lemma findExactBondViaApi_cases:
  "findExactBondViaApi server params =
     (case server params of
        FetchRejected \<Rightarrow> Inl NetworkFailure
      | FetchResponse res \<Rightarrow>
          if ok res then (case body_json res of JsonError \<Rightarrow> Inl BadJson | JsonMatch m \<Rightarrow> Inr m)
          else if body_text res = None then Inl BodyUnreadable
          else Inr None)"
  by (auto simp: findExactBondViaApi_def split: fetch_outcome.splits option.splits)

lemma run_summary_returned:
  assumes "lphase st = Summary" "summary_query fin (lanswers st) = Some params"
    "lookup server params = Inr row"
  shows "run_summary lookup fin st (server # rest) = (st\<lparr>lprimary := row, loadingMatch := False\<rparr>, rest)"
  using assms by (simp add: run_summary_def)

lemma run_summary_thrown:
  assumes "lphase st = Summary" "summary_query fin (lanswers st) = Some params"
    "lookup server params = Inl e"
  shows "run_summary lookup fin st (server # rest) = (st\<lparr>loadingMatch := True\<rparr>, rest)"
  using assms by (simp add: run_summary_def)

text \<open>
  Where the lookups give no match: a non-OK response whose body is read, a query
  error, and for \<open>findExactBondClient\<close> also an exception of the table client. The
  summary effect then takes one answer of the service and the card is the no-match
  inquiry.
\<close>

lemma lookup_failure_handled:
  "(server params = FetchResponse res \<and> \<not> ok res \<and> body_text res \<noteq> None \<longrightarrow>
      findExactBondViaApi server params = Inr None) \<and>
   (rerror (db params) \<noteq> None \<longrightarrow> findExactBond db params = None) \<and>
   ((cdb params = ClientThrows \<or> (\<exists>r. cdb params = ClientResult r \<and> rerror r \<noteq> None)) \<longrightarrow>
      match (findExactBondClient cdb params) = None) \<and>
   (lphase st = Summary \<and> summary_query fin (lanswers st) = Some params \<longrightarrow>
      (server params = FetchResponse res \<and> \<not> ok res \<and> body_text res \<noteq> None \<longrightarrow>
         snd (run_api fin st (server # env1)) = env1 \<and>
         summary_card (fst (run_api fin st (server # env1))) = NoMatchInquiry (queryError st)) \<and>
      (rerror (db params) \<noteq> None \<longrightarrow>
         snd (run_table fin st (db # env2)) = env2 \<and>
         summary_card (fst (run_table fin st (db # env2))) = NoMatchInquiry (queryError st)) \<and>
      ((cdb params = ClientThrows \<or> (\<exists>r. cdb params = ClientResult r \<and> rerror r \<noteq> None)) \<longrightarrow>
         snd (run_client fin st (cdb # env3)) = env3 \<and>
         is_no_match (summary_card (fst (run_client fin st (cdb # env3))))))"
proof -
  have api: "findExactBondViaApi server params = Inr None"
    if "server params = FetchResponse res" "\<not> ok res" "body_text res \<noteq> None"
    using that by (simp add: findExactBondViaApi_cases)
  have tab: "findExactBond db params = None" if "rerror (db params) \<noteq> None"
    using that by (simp add: findExactBond_def Let_def)
  have cli: "match (findExactBondClient cdb params) = None"
    if "cdb params = ClientThrows \<or> (\<exists>r. cdb params = ClientResult r \<and> rerror r \<noteq> None)"
    using that by (auto simp: findExactBondClient_def)
  have run1: "snd (run_api fin st (server # env1)) = env1 \<and>
         summary_card (fst (run_api fin st (server # env1))) = NoMatchInquiry (queryError st)"
    if "lphase st = Summary" "summary_query fin (lanswers st) = Some params"
      "server params = FetchResponse res" "\<not> ok res" "body_text res \<noteq> None"
    using that api by (simp add: run_api_def run_summary_returned summary_card_def)
  have run2: "snd (run_table fin st (db # env2)) = env2 \<and>
         summary_card (fst (run_table fin st (db # env2))) = NoMatchInquiry (queryError st)"
    if "lphase st = Summary" "summary_query fin (lanswers st) = Some params" "rerror (db params) \<noteq> None"
    using that tab by (simp add: run_table_def run_summary_returned summary_card_def)
  have run3: "snd (run_client fin st (cdb # env3)) = env3 \<and>
         is_no_match (summary_card (fst (run_client fin st (cdb # env3))))"
    if "lphase st = Summary" "summary_query fin (lanswers st) = Some params"
      "cdb params = ClientThrows \<or> (\<exists>r. cdb params = ClientResult r \<and> rerror r \<noteq> None)"
    using that cli by (simp add: run_client_def Let_def summary_card_def is_no_match_def)
  show ?thesis
    using api tab cli run1 run2 run3 by blast
qed

text \<open>
  Where \<open>findExactBondViaApi\<close> raises instead: a rejected fetch, a non-OK response whose
  body cannot be read, and an OK response that is no JSON. The effect has no handler,
  so the card stays on the search notice.
\<close>

lemma api_exception_searching:
  assumes "lphase st = Summary" "summary_query fin (lanswers st) = Some params"
    and "server params = FetchRejected \<or>
         (\<exists>res. server params = FetchResponse res \<and>
            (if ok res then body_json res = JsonError else body_text res = None))"
  shows "\<exists>e. findExactBondViaApi server params = Inl e"
    and "summary_card (fst (run_api fin st (server # env))) = Searching"
proof -
  show t: "\<exists>e. findExactBondViaApi server params = Inl e"
    using assms(3) by (auto simp: findExactBondViaApi_cases split: if_splits)
  then obtain e where "findExactBondViaApi server params = Inl e" ..
  with assms(1,2) show "summary_card (fst (run_api fin st (server # env))) = Searching"
    by (simp add: run_api_def run_summary_thrown summary_card_def)
qed

lemma demo_query:
  "summary_query all_finite chicago_answers =
     Some \<lparr>qstate = ''Illinois'', qcity = ''chicago'', qlimit = SafeInt False 50000, qname = ''city of chicago''\<rparr>"
  by (simp add: summary_query_def stateFromInput2_def numeric_def chicago_answers_def eval_defs Let_def)

text \<open>
  C7. A non-OK response does not always end in no match: when the body of the response
  cannot be read, \<open>findExactBondViaApi\<close> raises at \<^verbatim>\<open>await res.text()\<close> before its
  \<^verbatim>\<open>return null\<close>, the effect stops after \<^verbatim>\<open>setLoadingMatch(true)\<close> and the card stays
  on the search notice. With a readable body the same status gives the no-match inquiry,
  and \<open>findExactBondClient\<close> turns an exception into it as well.
\<close>

theorem non_ok_response_raises:
  "findExactBondViaApi server_cut
     \<lparr>qstate = ''Illinois'', qcity = ''chicago'', qlimit = SafeInt False 50000, qname = ''city of chicago''\<rparr>
     = Inl BodyUnreadable \<and>
   run_api all_finite demo_summary [server_cut] = (demo_summary\<lparr>loadingMatch := True\<rparr>, []) \<and>
   summary_card (fst (run_api all_finite demo_summary [server_cut])) = Searching \<and>
   summary_card (fst (run_api all_finite demo_summary [server_down])) = NoMatchInquiry None \<and>
   summary_card (fst (run_table all_finite demo_summary [table_denied])) = NoMatchInquiry None \<and>
   summary_card (fst (run_client all_finite demo_summary [client_cut]))
     = NoMatchInquiry (Some ''client-exception'')"
  by (simp add: run_api_def run_table_def run_summary_def run_client_def demo_query demo_summary_def
      server_cut_def server_down_def table_denied_def client_cut_def findExactBondViaApi_def
      findExactBond_def findExactBondClient_def summary_card_def Let_def)


section \<open>Cross-checks of the model\<close>

text \<open>
  The executable email test agrees with the reading of the regular expression as a
  split of the string.
\<close>

lemma dot_not_word: "\<not> is_word_or_hyphen CHR ''.''"
  by (simp add: is_word_or_hyphen_def is_upper_def is_lower_def is_digit_def code_def)

lemma at_not_space: "\<not> is_space CHR ''@''"
  by (simp add: is_space_def code_def)

lemma email_pattern_iff:
  "email_pattern t \<longleftrightarrow>
     (\<exists>a b c. t = a @ ''@'' @ b @ ''.'' @ c \<and> a \<noteq> [] \<and> b \<noteq> [] \<and>
        list_all (\<lambda>x. \<not> is_space x) a \<and> list_all (\<lambda>x. \<not> is_space x) b \<and>
        2 \<le> length c \<and> list_all is_word_or_hyphen c)"
  (is "?L \<longleftrightarrow> ?R")
proof
  assume ?R
  then obtain a b c where t: "t = a @ ''@'' @ b @ ''.'' @ c" and ne: "a \<noteq> []" "b \<noteq> []"
    and sp: "list_all (\<lambda>x. \<not> is_space x) a" "list_all (\<lambda>x. \<not> is_space x) b"
    and c: "2 \<le> length c" "list_all is_word_or_hyphen c"
    by blast
  have r: "rev t = rev c @ CHR ''.'' # (rev b @ CHR ''@'' # rev a)"
    by (simp add: t)
  have tw: "takeWhile is_word_or_hyphen (rev t) = rev c"
    unfolding r using c(2) by (simp add: takeWhile_tail dot_not_word list_all_iff)
  have "dropWhile is_word_or_hyphen (rev c @ CHR ''.'' # (rev b @ CHR ''@'' # rev a)) =
      dropWhile is_word_or_hyphen (CHR ''.'' # (rev b @ CHR ''@'' # rev a))"
    by (rule dropWhile_append2) (use c(2) in \<open>simp add: list_all_iff\<close>)
  then have dw: "dropWhile is_word_or_hyphen (rev t) = CHR ''.'' # (rev b @ CHR ''@'' # rev a)"
    unfolding r by (simp add: dot_not_word)
  have front: "rev (dropWhile is_word_or_hyphen (rev t)) = (a @ CHR ''@'' # b) @ ''.''"
    by (simp add: dw)
  have bl: "butlast (a @ CHR ''@'' # b) = a @ CHR ''@'' # butlast b"
    using ne(2) by (simp add: butlast_append)
  have "tl (a @ CHR ''@'' # butlast b) = tl a @ CHR ''@'' # butlast b"
    using ne(1) by simp
  then have at: "CHR ''@'' \<in> set (tl (butlast (a @ CHR ''@'' # b)))"
    by (simp add: bl)
  have bf: "butlast (a @ CHR ''@'' # b @ ''.'') = a @ CHR ''@'' # b"
    using butlast_snoc [of "a @ CHR ''@'' # b" "CHR ''.''"] by simp
  show ?L
    unfolding email_pattern_def Let_def tw front
    using c(1) sp at by (simp add: at_not_space bf del: butlast.simps)
next
  assume l: ?L
  define c where "c = rev (takeWhile is_word_or_hyphen (rev t))"
  define f where "f = rev (dropWhile is_word_or_hyphen (rev t))"
  have t: "t = f @ c"
  proof -
    have "rev (takeWhile is_word_or_hyphen (rev t) @ dropWhile is_word_or_hyphen (rev t)) = rev (rev t)"
      by (simp only: takeWhile_dropWhile_id)
    then have "f @ c = t"
      by (simp only: rev_append rev_rev_ident c_def f_def)
    then show ?thesis
      by simp
  qed
  from l have p: "2 \<le> length c" "f \<noteq> []" "last f = CHR ''.''"
    "list_all (\<lambda>x. \<not> is_space x) (butlast f)" "CHR ''@'' \<in> set (tl (butlast (butlast f)))"
    by (simp_all add: email_pattern_def Let_def c_def f_def)
  have cw: "list_all is_word_or_hyphen c"
    by (auto simp: c_def list_all_iff dest: set_takeWhileD)
  define g where "g = butlast f"
  have fg: "f = g @ ''.''"
    using append_butlast_last_id [OF p(2)] p(3) by (simp add: g_def)
  from p(5) obtain u v where uv: "tl (butlast g) = u @ CHR ''@'' # v"
    unfolding g_def by (auto dest: split_list)
  then have bne: "butlast g \<noteq> []"
    by auto
  then have gne: "g \<noteq> []"
    by auto
  obtain h where bg: "butlast g = h # u @ CHR ''@'' # v"
    using bne uv by (cases "butlast g") auto
  obtain l where gl: "g = butlast g @ [l]"
    using gne by (metis append_butlast_last_id)
  have g: "g = (h # u) @ ''@'' @ (v @ [l])"
    by (subst gl) (simp add: bg)
  have gs: "list_all (\<lambda>x. \<not> is_space x) g"
    using p(4) by (simp add: g_def)
  have "list_all (\<lambda>x. \<not> is_space x) ((h # u) @ ''@'' @ (v @ [l]))"
    using gs g by simp
  then have "list_all (\<lambda>x. \<not> is_space x) (h # u)" "list_all (\<lambda>x. \<not> is_space x) (v @ [l])"
    by simp_all
  moreover have "t = (h # u) @ ''@'' @ (v @ [l]) @ ''.'' @ c"
    using t fg g by simp
  ultimately show ?R
    using p(1) cw by blast
qed


text \<open>On the model's strings the two versions of \<open>stateFromInput\<close> agree.\<close>

lemma upper_is_letter: "is_upper (upper_char c) \<Longrightarrow> is_upper c \<or> is_lower c"
  by (auto simp: upper_char_def split: if_splits)

lemma stateFromInput2_eq: "stateFromInput2 inp = stateFromInput inp"
proof (cases "map_of states (toUpperCase (trim inp))")
  case None
  then show ?thesis
    by (simp add: stateFromInput2_def stateFromInput_def Let_def)
next
  case (Some full)
  then have "(toUpperCase (trim inp), full) \<in> set states"
    by (rule map_of_SomeD)
  then have k: "length (toUpperCase (trim inp)) = 2" "list_all is_upper (toUpperCase (trim inp))"
    using states_keys by auto
  then have "length (trim inp) = 2" "list_all (\<lambda>c. is_upper c \<or> is_lower c) (trim inp)"
    by (auto simp: toUpperCase_def list_all_iff dest: upper_is_letter)
  with Some show ?thesis
    by (simp add: stateFromInput2_def stateFromInput_def Let_def)
qed

end
